theory Spec2Isabelle
  imports Complex_Main "HOL-Library.AList" "HOL-Library.Char_ord" "HOL-Library.List_Lexorder"
begin

section \<open>JavaScript strings and arrays\<close>

text \<open>
  Strings are lists of 8-bit characters (code units restricted to Latin-1; JavaScript
  strings are UTF-16, which only widens the alphabet). JavaScript numbers that hold
  indices, lengths and token counts are integers here; scores and ages are reals
  (the exact values that the IEEE doubles of the program approximate).
\<close>

type_synonym bytes = string

text \<open>\<open>Array.prototype.slice\<close> and \<open>String.prototype.slice\<close>: a negative bound counts from
  the end, both bounds are clamped to the length.\<close>

definition slice :: "'a list \<Rightarrow> int \<Rightarrow> int \<Rightarrow> 'a list" where
  "slice s a b =
     (let len = int (length s);
          from = (if a < 0 then max (len + a) 0 else min a len);
          to = (if b < 0 then max (len + b) 0 else min b len)
      in take (nat (to - from)) (drop (nat from) s))"

text \<open>White space of \<open>trim\<close> and of the regular expression class \<open>\s\<close>, within Latin-1.\<close>

definition is_ws :: "char \<Rightarrow> bool" where
  "is_ws c = (c \<in> set [CHR 0x09, CHR 0x0A, CHR 0x0B, CHR 0x0C, CHR 0x0D, CHR '' '', CHR 0xA0])"

definition trim :: "string \<Rightarrow> string" where
  "trim s = rev (dropWhile is_ws (rev (dropWhile is_ws s)))"

definition matches_at :: "string \<Rightarrow> string \<Rightarrow> nat \<Rightarrow> bool" where
  "matches_at s pat k = (k + length pat \<le> length s \<and> take (length pat) (drop k s) = pat)"

fun last_match_from :: "string \<Rightarrow> string \<Rightarrow> nat \<Rightarrow> int" where
  "last_match_from s pat 0 = (if matches_at s pat 0 then 0 else - 1)"
| "last_match_from s pat (Suc k) =
     (if matches_at s pat (Suc k) then int (Suc k) else last_match_from s pat k)"

text \<open>\<open>s.lastIndexOf(pat, pos)\<close>: the largest index not above \<open>pos\<close> (clamped to
  \<open>[0, length s - length pat]\<close>) at which \<open>pat\<close> occurs, or \<open>-1\<close>.\<close>

definition lastIndexOf :: "string \<Rightarrow> string \<Rightarrow> int \<Rightarrow> int" where
  "lastIndexOf s pat pos =
     (if length s < length pat then - 1
      else last_match_from s pat (nat (min (max pos 0) (int (length s - length pat)))))"

section \<open>The chunker (\<open>Crystal.chunkText\<close>)\<close>

text \<open>The end of the window that starts at \<open>start\<close>: the target end clipped to the text,
  snapped back to the last blank line, else to the last sentence end, beyond the middle of
  the window.\<close>

definition window_end :: "string \<Rightarrow> int \<Rightarrow> int \<Rightarrow> int" where
  "window_end text targetChars start =
     (let len = int (length text);
          end0 = min (start + targetChars) len
      in if end0 < len then
           (let minBreak = start + targetChars div 2;
                paraBreak = lastIndexOf text [CHR 0x0A, CHR 0x0A] end0
            in if paraBreak > minBreak then paraBreak
               else (let sentBreak = lastIndexOf text ''. '' end0
                     in if sentBreak > minBreak then sentBreak + 1 else end0))
         else end0)"

datatype chunk_step = Done "string list" | Next int "string list"

text \<open>One pass through the body of the \<open>while\<close> loop: \<open>Done\<close> is the \<open>break\<close>, \<open>Next\<close>
  carries the new \<open>start\<close> and the chunks so far.\<close>

definition chunk_iter :: "string \<Rightarrow> int \<Rightarrow> int \<Rightarrow> int \<Rightarrow> string list \<Rightarrow> chunk_step" where
  "chunk_iter text targetChars overlapChars start chunks =
     (let end = window_end text targetChars start;
          chunk = trim (slice text start end);
          chunks' = (if length chunk > 0 then chunks @ [chunk] else chunks)
      in if end \<ge> int (length text) then Done chunks'
         else (let start1 = end - overlapChars
               in if start1 \<le> (if length chunks' > 0 then end - targetChars else 0)
                  then Next end chunks' else Next start1 chunks'))"

text \<open>The loop itself. It need not end, so it is a partial function: \<open>None\<close> is a run
  that never returns.\<close>

partial_function (option) chunk_loop ::
  "string \<Rightarrow> int \<Rightarrow> int \<Rightarrow> int \<Rightarrow> string list \<Rightarrow> string list option" where
  "chunk_loop text targetChars overlapChars start chunks =
     (if start < int (length text) then
        (case chunk_iter text targetChars overlapChars start chunks of
           Done cs \<Rightarrow> Some cs
         | Next start' cs \<Rightarrow> chunk_loop text targetChars overlapChars start' cs)
      else Some chunks)"

definition chunkText :: "string \<Rightarrow> int \<Rightarrow> int \<Rightarrow> string list option" where
  "chunkText text targetTokens overlapTokens =
     chunk_loop text (targetTokens * 4) (overlapTokens * 4) 0 []"

text \<open>A text of 19 characters: seven letters, a blank line, ten letters.\<close>

definition para_text :: string where
  "para_text = ''aaaaaaa'' @ [CHR 0x0A, CHR 0x0A] @ ''bbbbbbbbbb''"

section \<open>Recency helpers\<close>

datatype freshness = Fresh | Recent | Aging | Stale

definition recencyWeight :: "real \<Rightarrow> real" where
  "recencyWeight ageDays = max 0.5 (1.0 - ageDays * 0.01)"

definition freshnessLabel :: "real \<Rightarrow> freshness" where
  "freshnessLabel ageDays =
     (if ageDays < 3 then Fresh
      else if ageDays < 7 then Recent
      else if ageDays < 14 then Aging
      else Stale)"

section \<open>The store\<close>

type_synonym vec = "real list"

datatype role = User | Assistant | System

fun role_name :: "role \<Rightarrow> string" where
  "role_name User = ''user''"
| "role_name Assistant = ''assistant''"
| "role_name System = ''system''"

text \<open>The interface \<open>Chunk\<close> as \<open>ingest\<close> reads it.\<close>

record Chunk =
  c_text :: string
  c_role :: role
  c_source_type :: string
  c_source_id :: string
  c_agent_id :: string
  c_token_count :: int
  c_created_at :: string

text \<open>A row of the table \<open>chunks\<close>; the columns without \<open>NOT NULL\<close> are options.\<close>

record chunk_row =
  row_id :: int
  row_text :: string
  row_text_hash :: string
  row_role :: "string option"
  row_source_type :: "string option"
  row_source_id :: "string option"
  row_agent_id :: "string option"
  row_token_count :: "int option"
  row_created_at :: string

text \<open>A record of the LanceDB table \<open>chunks\<close> (the dual write).\<close>

record lance_record =
  l_text :: string
  l_vector :: vec
  l_role :: string
  l_source_type :: string
  l_source_id :: string
  l_agent_id :: string
  l_token_count :: int
  l_created_at :: string

datatype category = Fact | Preference | Event | Opinion | Skill

datatype status = Active | Deprecated | Deleted

record memory_row =
  m_text :: string
  m_category :: category
  m_confidence :: real
  m_source_ids :: string
  m_status :: status
  m_created_at :: string
  m_updated_at :: string

text \<open>
  The state of a \<open>Crystal\<close>: the SQLite tables it reads and writes, the cached vector
  dimension and the LanceDB table handle. \<open>chunks_vec\<close> is \<open>None\<close> until the virtual table
  is created, then its declared dimension and its rows. \<open>memories\<close> is keyed by its
  primary key.
\<close>

record crystal =
  chunks :: "chunk_row list"
  chunks_seq :: int
  chunks_fts :: "(int \<times> string) list"
  chunks_vec :: "(nat \<times> (int \<times> vec) list) option"
  vecDimensions :: "nat option"
  memories :: "int \<rightharpoonup> memory_row"
  memories_seq :: int
  chunksTable :: "lance_record list option"

text \<open>
  What the code calls outside the repository: SHA-256, the embedding provider, the clock
  and date parsing, the nearest-neighbour operator of sqlite-vec (on the declared
  dimension and the rows of \<open>chunks_vec\<close>), the \<open>MATCH\<close> and \<open>bm25\<close> of FTS5, the vector
  search of LanceDB (given the \<open>where\<close> clauses in call order), whether \<open>countRows\<close> and a
  write of LanceDB succeed, and the Unicode classes and lower-casing of the regular
  expression in \<open>buildFTS5Query\<close>. A call that can throw returns an option, \<open>None\<close> when
  it does.
\<close>

record env =
  sha256_hex :: "string \<Rightarrow> string"
  provider :: "string list \<Rightarrow> vec list option"
  now_iso :: string
  now_ms :: real
  date_ms :: "string \<Rightarrow> real"
  vec_knn :: "vec \<Rightarrow> int \<Rightarrow> nat \<times> (int \<times> vec) list \<Rightarrow> (int \<times> real) list option"
  fts_match :: "string \<Rightarrow> (int \<times> string) list \<Rightarrow> (int \<times> real) list option"
  lance_search :: "lance_record list \<Rightarrow> vec \<Rightarrow> int \<Rightarrow> string list \<Rightarrow> (lance_record \<times> real option) list option"
  lance_count_ok :: bool
  lance_write_ok :: bool
  is_letter_or_number :: "char \<Rightarrow> bool"
  to_lower :: "char \<Rightarrow> char"

datatype error = EmbedFailed | CreateFailed | InsertFailed | QueryFailed | LanceFailed

text \<open>\<open>Crystal.embed\<close>: no request for an empty list.\<close>

definition embed :: "env \<Rightarrow> string list \<Rightarrow> vec list option" where
  "embed E texts = (if texts = [] then Some [] else provider E texts)"

text \<open>\<open>ensureVecTable\<close>: \<open>None\<close> when \<open>CREATE VIRTUAL TABLE\<close> throws, which \<open>vec0\<close> does for
  a column \<open>float[0]\<close>.\<close>

definition ensureVecTable :: "crystal \<Rightarrow> nat \<Rightarrow> crystal option" where
  "ensureVecTable st dimensions =
     (case chunks_vec st of
        None \<Rightarrow>
          if dimensions = 0 then None
          else Some (st\<lparr>chunks_vec := Some (dimensions, []), vecDimensions := Some dimensions\<rparr>)
      | Some t \<Rightarrow> Some (st\<lparr>vecDimensions := Some dimensions\<rparr>))"

text \<open>\<open>!this.vecDimensions\<close>: unset, or zero.\<close>

definition no_vecDimensions :: "crystal \<Rightarrow> bool" where
  "no_vecDimensions st = (case vecDimensions st of None \<Rightarrow> True | Some d \<Rightarrow> d = 0)"

text \<open>\<open>INSERT INTO chunks\<close>: the next \<open>AUTOINCREMENT\<close> id, the row, and the row of
  \<open>chunks_fts\<close> that the trigger adds.\<close>

definition next_chunk_id :: "crystal \<Rightarrow> int" where
  "next_chunk_id st = fold max (map row_id (chunks st)) (chunks_seq st) + 1"

definition insertChunk :: "env \<Rightarrow> crystal \<Rightarrow> Chunk \<Rightarrow> int \<times> crystal" where
  "insertChunk E st c =
     (let i = next_chunk_id st;
          r = \<lparr>row_id = i, row_text = c_text c, row_text_hash = sha256_hex E (c_text c),
               row_role = Some (role_name (c_role c)),
               row_source_type = Some (c_source_type c),
               row_source_id = Some (c_source_id c),
               row_agent_id = Some (c_agent_id c),
               row_token_count = Some (c_token_count c),
               row_created_at = (if c_created_at c = [] then now_iso E else c_created_at c)\<rparr>
      in (i, st\<lparr>chunks := chunks st @ [r], chunks_seq := i,
                 chunks_fts := chunks_fts st @ [(i, c_text c)]\<rparr>))"

text \<open>\<open>INSERT INTO chunks_vec\<close>: fails without the table, on a vector of another
  dimension, and on a repeated primary key.\<close>

definition insertVec :: "crystal \<Rightarrow> int \<Rightarrow> vec \<Rightarrow> crystal option" where
  "insertVec st i v =
     (case chunks_vec st of
        None \<Rightarrow> None
      | Some (d, rows) \<Rightarrow>
          if length v \<noteq> d \<or> i \<in> set (map fst rows) then None
          else Some (st\<lparr>chunks_vec := Some (d, rows @ [(i, v)])\<rparr>))"

text \<open>The body of the transaction: the loop over \<open>newChunks\<close>, from index \<open>i\<close>.
  \<open>embeddings[i]\<close> beyond the end is \<open>undefined\<close>, and \<open>new Float32Array(undefined)\<close> is
  empty. \<open>None\<close> is a statement that throws, which rolls the transaction back.\<close>

fun insert_all :: "env \<Rightarrow> vec list \<Rightarrow> nat \<Rightarrow> Chunk list \<Rightarrow> crystal \<Rightarrow> crystal option" where
  "insert_all E embeddings i [] st = Some st"
| "insert_all E embeddings i (c # cs) st =
     (let (chunkId, st1) = insertChunk E st c;
          v = (if i < length embeddings then embeddings ! i else [])
      in case insertVec st1 chunkId v of
           None \<Rightarrow> None
         | Some st2 \<Rightarrow> insert_all E embeddings (Suc i) cs st2)"

definition lance_records :: "env \<Rightarrow> vec list \<Rightarrow> Chunk list \<Rightarrow> lance_record list" where
  "lance_records E embeddings newChunks =
     map (\<lambda>(i, c). \<lparr>l_text = c_text c,
                     l_vector = (if i < length embeddings then embeddings ! i else []),
                     l_role = role_name (c_role c),
                     l_source_type = c_source_type c,
                     l_source_id = c_source_id c,
                     l_agent_id = c_agent_id c,
                     l_token_count = c_token_count c,
                     l_created_at = (if c_created_at c = [] then now_iso E else c_created_at c)\<rparr>)
         (enumerate 0 newChunks)"

text \<open>The dual write: a failure is caught and leaves the table as it was.\<close>

definition lance_dual_write :: "env \<Rightarrow> crystal \<Rightarrow> lance_record list \<Rightarrow> crystal" where
  "lance_dual_write E st records =
     (if lance_write_ok E then
        (case chunksTable st of
           None \<Rightarrow> st\<lparr>chunksTable := Some records\<rparr>
         | Some t \<Rightarrow> st\<lparr>chunksTable := Some (t @ records)\<rparr>)
      else st)"

definition hash_in_store :: "crystal \<Rightarrow> string \<Rightarrow> bool" where
  "hash_in_store st h = (h \<in> set (map row_text_hash (chunks st)))"

text \<open>\<open>Crystal.ingest\<close>: the result (\<open>Inl\<close> when it throws) and the state it leaves.\<close>

definition ingest :: "env \<Rightarrow> crystal \<Rightarrow> Chunk list \<Rightarrow> (error + nat) \<times> crystal" where
  "ingest E st cs =
     (if cs = [] then (Inr 0, st)
      else
        (let newChunks = filter (\<lambda>c. \<not> hash_in_store st (sha256_hex E (c_text c))) cs
         in if newChunks = [] then (Inr 0, st)
            else
              (case embed E (map c_text newChunks) of
                 None \<Rightarrow> (Inl EmbedFailed, st)
               | Some embeddings \<Rightarrow>
                   (case (if no_vecDimensions st \<and> embeddings \<noteq> []
                          then ensureVecTable st (length (hd embeddings)) else Some st) of
                      None \<Rightarrow> (Inl CreateFailed, st)
                    | Some st1 \<Rightarrow>
                        (case insert_all E embeddings 0 newChunks st1 of
                           None \<Rightarrow> (Inl InsertFailed, st1)
                         | Some st2 \<Rightarrow>
                             (Inr (length newChunks),
                              lance_dual_write E st2 (lance_records E embeddings newChunks)))))))"

definition count_chunks :: "crystal \<Rightarrow> nat" where
  "count_chunks st = length (chunks st)"

definition empty_store :: crystal where
  "empty_store = \<lparr>chunks = [], chunks_seq = 0, chunks_fts = [], chunks_vec = None,
     vecDimensions = None, memories = Map.empty, memories_seq = 0, chunksTable = None\<rparr>"

section \<open>Search\<close>

record SearchResult =
  r_text :: string
  r_role :: "string option"
  score :: real
  r_source_type :: "string option"
  r_source_id :: "string option"
  r_agent_id :: "string option"
  r_created_at :: string
  freshness :: "freshness option"

text \<open>The optional argument \<open>filter\<close> with its two optional fields.\<close>

record search_filter =
  f_agent_id :: "string option"
  f_source_type :: "string option"

text \<open>The tests \<open>if (filter?.agent_id)\<close> and \<open>if (filter?.source_type)\<close>: the value when it
  is truthy, that is, when the filter and the field are given and the string is not
  empty.\<close>

definition truthy :: "string option \<Rightarrow> string option" where
  "truthy v = (case v of None \<Rightarrow> None | Some s \<Rightarrow> if s = [] then None else Some s)"

definition filter_agent :: "search_filter option \<Rightarrow> string option" where
  "filter_agent f = (case f of None \<Rightarrow> None | Some fl \<Rightarrow> truthy (f_agent_id fl))"

definition filter_source :: "search_filter option \<Rightarrow> string option" where
  "filter_source f = (case f of None \<Rightarrow> None | Some fl \<Rightarrow> truthy (f_source_type fl))"

text \<open>The \<open>AND agent_id = ?\<close> and \<open>AND source_type = ?\<close> that the tests append to the
  SQL; a \<open>NULL\<close> column equals nothing.\<close>

definition row_passes :: "search_filter option \<Rightarrow> chunk_row \<Rightarrow> bool" where
  "row_passes f r =
     ((case filter_agent f of None \<Rightarrow> True | Some a \<Rightarrow> row_agent_id r = Some a) \<and>
      (case filter_source f of None \<Rightarrow> True | Some s \<Rightarrow> row_source_type r = Some s))"

definition row_result :: "chunk_row \<Rightarrow> real \<Rightarrow> SearchResult" where
  "row_result row sc =
     \<lparr>r_text = row_text row, r_role = row_role row, score = sc,
      r_source_type = row_source_type row, r_source_id = row_source_id row,
      r_agent_id = row_agent_id row, r_created_at = row_created_at row,
      freshness = None\<rparr>"

text \<open>\<open>Crystal.searchVec\<close>: the nearest neighbours first, then the metadata of those ids
  with the filter, in the order of the table. \<open>distMap.get(row.id) || 1\<close> is 1 for a
  missing and for a zero distance. \<open>None\<close> is a query that throws (also the one on a
  missing \<open>chunks_vec\<close>).\<close>

definition searchVec :: "env \<Rightarrow> crystal \<Rightarrow> vec \<Rightarrow> int \<Rightarrow> search_filter option \<Rightarrow> SearchResult list option" where
  "searchVec E st embedding limit f =
     (if no_vecDimensions st then Some []
      else
        (case chunks_vec st of
           None \<Rightarrow> None
         | Some table \<Rightarrow>
             (case vec_knn E embedding limit table of
                None \<Rightarrow> None
              | Some vecRows \<Rightarrow>
                  if vecRows = [] then Some []
                  else
                    (let ids = map fst vecRows;
                         distMap = map_of (rev vecRows);
                         rows = filter (\<lambda>r. row_id r \<in> set ids \<and> row_passes f r) (chunks st)
                     in Some (map (\<lambda>row. row_result row
                                   (1 - (case distMap (row_id row) of
                                           None \<Rightarrow> 1
                                         | Some distance \<Rightarrow> if distance = 0 then 1 else distance)))
                              rows)))))"

text \<open>\<open>query.split(/\s+/)\<close>: the pieces between maximal runs of white space, with an
  empty piece before a leading and after a trailing run.\<close>

fun split_ws :: "string \<Rightarrow> bool \<Rightarrow> string \<Rightarrow> string list" where
  "split_ws cur insep [] = [cur]"
| "split_ws cur insep (c # cs) =
     (if is_ws c then (if insep then split_ws cur True cs else cur # split_ws [] True cs)
      else split_ws (cur @ [c]) False cs)"

fun join_with :: "string \<Rightarrow> string list \<Rightarrow> string" where
  "join_with sep [] = []"
| "join_with sep [t] = t"
| "join_with sep (t # ts) = t @ sep @ join_with sep ts"

definition quoted_prefix :: "string \<Rightarrow> string" where
  "quoted_prefix t = [CHR 0x22] @ t @ [CHR 0x22, CHR ''*'']"

definition buildFTS5Query :: "env \<Rightarrow> string \<Rightarrow> string option" where
  "buildFTS5Query E query =
     (let terms = filter (\<lambda>t. length t > 0)
                    (map (\<lambda>t. map (to_lower E)
                                 (filter (\<lambda>c. is_letter_or_number E c \<or> c = CHR 0x27) t))
                         (split_ws [] False query))
      in if length terms = 0 then None
         else if length terms = 1 then Some (quoted_prefix (hd terms))
         else Some (join_with '' AND '' (map quoted_prefix terms)))"

text \<open>\<open>Crystal.searchFTS\<close>: the matching rows of \<open>chunks_fts\<close> joined with \<open>chunks\<close> on the
  row id, the filter, the order by the BM25 score, the limit (a negative \<open>LIMIT\<close> is no
  limit). \<open>None\<close> is a query that throws.\<close>

definition searchFTS :: "env \<Rightarrow> crystal \<Rightarrow> string \<Rightarrow> int \<Rightarrow> search_filter option \<Rightarrow> SearchResult list option" where
  "searchFTS E st query limit f =
     (case buildFTS5Query E query of
        None \<Rightarrow> Some []
      | Some ftsQuery \<Rightarrow>
          (case fts_match E ftsQuery (chunks_fts st) of
             None \<Rightarrow> None
           | Some matches \<Rightarrow>
               (let joined = concat (map (\<lambda>(i, bm25).
                                       map (\<lambda>c. (c, bm25))
                                           (filter (\<lambda>c. row_id c = i \<and> row_passes f c) (chunks st)))
                                     matches);
                    ordered = sort_key snd joined;
                    rows = (if limit < 0 then ordered else take (nat limit) ordered)
                in Some (map (\<lambda>(c, bm25). row_result c (\<bar>bm25\<bar> / (1 + \<bar>bm25\<bar>))) rows))))"

subsection \<open>Reciprocal rank fusion\<close>

record rrf_entry =
  result :: SearchResult
  rrfScore :: real
  topRank :: nat

text \<open>The \<open>Map\<close> named \<open>scores\<close>, in insertion order: \<open>AList.update\<close> overwrites a key in
  place and appends a new one, as \<open>Map.prototype.set\<close> does.\<close>

type_synonym scores = "(string \<times> rrf_entry) list"

definition dedup_key :: "SearchResult \<Rightarrow> string" where
  "dedup_key r = slice (r_text r) 0 200"

definition rrf_add :: "real \<Rightarrow> real \<Rightarrow> nat \<Rightarrow> SearchResult \<Rightarrow> scores \<Rightarrow> scores" where
  "rrf_add weight k rank r sc =
     (let rrfContribution = weight / (k + real rank + 1);
          dedup = dedup_key r
      in case map_of sc dedup of
           Some existing \<Rightarrow>
             AList.update dedup
               (existing\<lparr>rrfScore := rrfScore existing + rrfContribution,
                         topRank := min (topRank existing) rank\<rparr>) sc
         | None \<Rightarrow>
             AList.update dedup \<lparr>result = r, rrfScore = rrfContribution, topRank = rank\<rparr> sc)"

text \<open>The inner loop over one list, from \<open>rank\<close>.\<close>

fun rrf_list :: "real \<Rightarrow> real \<Rightarrow> nat \<Rightarrow> SearchResult list \<Rightarrow> scores \<Rightarrow> scores" where
  "rrf_list weight k rank [] sc = sc"
| "rrf_list weight k rank (r # rs) sc = rrf_list weight k (Suc rank) rs (rrf_add weight k rank r sc)"

text \<open>The outer loop over the lists, from \<open>listIdx\<close>; a missing weight is 1.\<close>

fun rrf_lists :: "real list \<Rightarrow> real \<Rightarrow> nat \<Rightarrow> SearchResult list list \<Rightarrow> scores \<Rightarrow> scores" where
  "rrf_lists weights k listIdx [] sc = sc"
| "rrf_lists weights k listIdx (l # ls) sc =
     rrf_lists weights k (Suc listIdx) ls
       (rrf_list (if listIdx < length weights then weights ! listIdx else 1.0) k 0 l sc)"

definition top_rank_bonus :: "rrf_entry \<Rightarrow> rrf_entry" where
  "top_rank_bonus entry =
     (if topRank entry = 0 then entry\<lparr>rrfScore := rrfScore entry + 0.05\<rparr>
      else if topRank entry \<le> 2 then entry\<lparr>rrfScore := rrfScore entry + 0.02\<rparr>
      else entry)"

text \<open>\<open>Crystal.reciprocalRankFusion\<close>; the sort is stable and descending.\<close>

definition reciprocalRankFusion :: "SearchResult list list \<Rightarrow> real list \<Rightarrow> real \<Rightarrow> SearchResult list" where
  "reciprocalRankFusion resultLists weights k =
     map (\<lambda>e. (result e)\<lparr>score := rrfScore e\<rparr>)
       (sort_key (\<lambda>e. - rrfScore e)
          (map (\<lambda>(d, e). top_rank_bonus e) (rrf_lists weights k 0 resultLists [])))"

subsection \<open>The LanceDB fallback and the hybrid search\<close>

definition fetch_limit :: "int \<Rightarrow> int" where
  "fetch_limit limit = max (limit * 3) 30"

definition first_embedding :: "vec list \<Rightarrow> vec" where
  "first_embedding vs = (case vs of [] \<Rightarrow> [] | v # _ \<Rightarrow> v)"

text \<open>The \<open>where\<close> clauses of the fallback, in call order; the values are spliced into
  the SQL text.\<close>

definition agent_clause :: "string \<Rightarrow> string" where
  "agent_clause a = ''agent_id = '' @ [CHR 0x27] @ a @ [CHR 0x27]"

definition source_clause :: "string \<Rightarrow> string" where
  "source_clause s = ''source_type = '' @ [CHR 0x27] @ s @ [CHR 0x27]"

definition lance_wheres :: "search_filter option \<Rightarrow> string list" where
  "lance_wheres f =
     (case filter_agent f of None \<Rightarrow> [] | Some a \<Rightarrow> [agent_clause a]) @
     (case filter_source f of None \<Rightarrow> [] | Some s \<Rightarrow> [source_clause s])"

definition age_days :: "env \<Rightarrow> string \<Rightarrow> real" where
  "age_days E created = (if created \<noteq> [] then (now_ms E - date_ms E created) / 86400000 else 0)"

definition lance_result :: "env \<Rightarrow> lance_record \<times> real option \<Rightarrow> SearchResult" where
  "lance_result E p =
     (let row = fst p;
          cosine = (case snd p of Some distance \<Rightarrow> 1 - distance | None \<Rightarrow> 0);
          createdAt = l_created_at row;
          ageDays = age_days E createdAt;
          weight = (if createdAt \<noteq> [] then recencyWeight ageDays else 1)
      in \<lparr>r_text = l_text row, r_role = Some (l_role row), score = cosine * weight,
          r_source_type = Some (l_source_type row), r_source_id = Some (l_source_id row),
          r_agent_id = Some (l_agent_id row), r_created_at = createdAt,
          freshness = (if createdAt \<noteq> [] then Some (freshnessLabel ageDays) else None)\<rparr>)"

definition by_score_desc :: "SearchResult list \<Rightarrow> SearchResult list" where
  "by_score_desc rs = sort_key (\<lambda>r. - score r) rs"

definition searchLanceFallback :: "env \<Rightarrow> crystal \<Rightarrow> string \<Rightarrow> int \<Rightarrow> search_filter option \<Rightarrow> error + SearchResult list" where
  "searchLanceFallback E st query limit f =
     (case chunksTable st of
        None \<Rightarrow> Inr []
      | Some table \<Rightarrow>
          (case embed E [query] of
             None \<Rightarrow> Inl EmbedFailed
           | Some vs \<Rightarrow>
               (case lance_search E table (first_embedding vs) (fetch_limit limit) (lance_wheres f) of
                  None \<Rightarrow> Inl LanceFailed
                | Some results \<Rightarrow>
                    Inr (slice (by_score_desc (map (lance_result E) results)) 0 limit))))"

definition rescore :: "env \<Rightarrow> SearchResult \<Rightarrow> SearchResult" where
  "rescore E r =
     (let ageDays = age_days E (r_created_at r);
          recency = (if r_created_at r \<noteq> [] then recencyWeight ageDays else 1);
          rescaled = min (score r * recency * 8) 1.0
      in r\<lparr>score := rescaled,
           freshness := (if r_created_at r \<noteq> [] then Some (freshnessLabel ageDays) else None)\<rparr>)"

text \<open>Whether \<open>search\<close> leaves the hybrid path: SQLite holds no chunks, or fewer than
  half of what LanceDB counts (0 without a table and when \<open>countRows\<close> throws).\<close>

definition uses_fallback :: "env \<Rightarrow> crystal \<Rightarrow> bool" where
  "uses_fallback E st =
     (let sqliteChunks = length (chunks st);
          lanceChunks = (case chunksTable st of
                           None \<Rightarrow> 0
                         | Some t \<Rightarrow> if lance_count_ok E then length t else 0)
      in sqliteChunks = 0 \<or> (lanceChunks > 0 \<and> real sqliteChunks < real lanceChunks * 0.5))"

definition search :: "env \<Rightarrow> crystal \<Rightarrow> string \<Rightarrow> int \<Rightarrow> search_filter option \<Rightarrow> error + SearchResult list" where
  "search E st query limit f =
     (if uses_fallback E st then searchLanceFallback E st query limit f
      else
        (case embed E [query] of
           None \<Rightarrow> Inl EmbedFailed
         | Some vs \<Rightarrow>
             (let fetchLimit = fetch_limit limit
              in case searchVec E st (first_embedding vs) fetchLimit f of
                   None \<Rightarrow> Inl QueryFailed
                 | Some vecResults \<Rightarrow>
                     (case searchFTS E st query fetchLimit f of
                        None \<Rightarrow> Inl QueryFailed
                      | Some ftsResults \<Rightarrow>
                          (let fused = reciprocalRankFusion [ftsResults, vecResults] [1.0, 1.0] 60;
                               scored = map (rescore E) fused
                           in Inr (slice (by_score_desc scored) 0 limit))))))"

section \<open>Memories\<close>

text \<open>\<open>Crystal.forget\<close>: the \<open>UPDATE ... WHERE id = ? AND status = 'active'\<close>, and whether it
  changed a row.\<close>

definition forget :: "env \<Rightarrow> crystal \<Rightarrow> int \<Rightarrow> bool \<times> crystal" where
  "forget E st memoryId =
     (let now = now_iso E
      in case memories st memoryId of
           None \<Rightarrow> (False, st)
         | Some m \<Rightarrow>
             if m_status m = Active
             then (True, st\<lparr>memories := (memories st)(memoryId \<mapsto>
                                 m\<lparr>m_status := Deprecated, m_updated_at := now\<rparr>)\<rparr>)
             else (False, st))"

text \<open>The decimal text of a row id, as a template literal prints it.\<close>

function dec_nat :: "nat \<Rightarrow> string" where
  "dec_nat n = (if n < 10 then [''0123456789'' ! n]
                else dec_nat (n div 10) @ [''0123456789'' ! (n mod 10)])"
  by pat_completeness auto
termination
  by (relation "measure (\<lambda>n. n)") auto

definition show_id :: "int \<Rightarrow> string" where
  "show_id i = (if i < 0 then CHR ''-'' # dec_nat (nat (- i)) else dec_nat (nat i))"

text \<open>\<open>Crystal.remember\<close>: the row of \<open>memories\<close> under the next id of its sequence, then
  the ingest of its mirror chunk; the row stays when the ingest throws.\<close>

definition remember :: "env \<Rightarrow> crystal \<Rightarrow> string \<Rightarrow> category \<Rightarrow> (error + int) \<times> crystal" where
  "remember E st txt cat =
     (let now = now_iso E;
          i = memories_seq st + 1;
          st1 = st\<lparr>memories := (memories st)(i \<mapsto>
                       \<lparr>m_text = txt, m_category = cat, m_confidence = 1.0,
                        m_source_ids = ''[]'', m_status = Active,
                        m_created_at = now, m_updated_at = now\<rparr>),
                   memories_seq := i\<rparr>;
          (res, st2) = ingest E st1
                         [\<lparr>c_text = txt, c_role = System, c_source_type = ''manual'',
                           c_source_id = ''memory:'' @ show_id i, c_agent_id = ''system'',
                           c_token_count = (int (length txt) + 3) div 4, c_created_at = now\<rparr>]
      in case res of Inl e \<Rightarrow> (Inl e, st2) | Inr n \<Rightarrow> (Inr i, st2))"

section \<open>Auxiliary notions and concrete inputs\<close>



text \<open>The score that the fusion has accumulated for a key.\<close>

definition key_score :: "scores \<Rightarrow> string \<Rightarrow> real" where
  "key_score sc d = (case map_of sc d of None \<Rightarrow> 0 | Some e \<Rightarrow> rrfScore e)"

text \<open>A result whose text is 200 times \<open>x\<close> and one more character.\<close>

definition long_result :: "char \<Rightarrow> SearchResult" where
  "long_result c =
     \<lparr>r_text = replicate 200 (CHR ''x'') @ [c], r_role = Some ''user'', score = 0,
      r_source_type = Some ''conversation'', r_source_id = Some ''s1'',
      r_agent_id = Some ''main'', r_created_at = ''2026-02-01T00:00:00.000Z'',
      freshness = None\<rparr>"

text \<open>An environment in which every call succeeds: the identity for the hash, a
  one-dimensional embedding, SQLite indices that return every row, a LanceDB search that
  returns the rows meeting every \<open>where\<close> clause, and the clock at 2026-02-16T00:00:00Z,
  which reads the one creation time used below.\<close>

definition demo_env :: env where
  "demo_env =
     \<lparr>sha256_hex = (\<lambda>s. s),
      provider = (\<lambda>texts. Some (map (\<lambda>t. [1]) texts)),
      now_iso = ''2026-02-16T00:00:00.000Z'',
      now_ms = 1771200000000,
      date_ms = (\<lambda>s. if s = ''2026-02-10T00:00:00.000Z'' then 1770681600000 else 0),
      vec_knn = (\<lambda>v k table. Some (map (\<lambda>p. (fst p, 1 / 2)) (snd table))),
      fts_match = (\<lambda>q rows. Some (map (\<lambda>p. (fst p, - 1)) rows)),
      lance_search = (\<lambda>table v k wheres.
         Some (map (\<lambda>r. (r, Some (1 / 2)))
                 (filter (\<lambda>r. list_all (\<lambda>w. w = agent_clause (l_agent_id r) \<or>
                                                w = source_clause (l_source_type r)) wheres)
                    table))),
      lance_count_ok = True,
      lance_write_ok = True,
      is_letter_or_number = (\<lambda>c. c \<in> set ''abcdefghijklmnopqrstuvwxyz0123456789''),
      to_lower = (\<lambda>c. c)\<rparr>"

definition demo_chunk :: Chunk where
  "demo_chunk = \<lparr>c_text = ''ship policy'', c_role = Assistant, c_source_type = ''conversation'',
     c_source_id = ''s1'', c_agent_id = ''main'', c_token_count = 3,
     c_created_at = ''2026-02-10T00:00:00.000Z''\<rparr>"

definition demo_lance_record :: lance_record where
  "demo_lance_record = \<lparr>l_text = ''ship policy'', l_vector = [1], l_role = ''assistant'',
     l_source_type = ''conversation'', l_source_id = ''s1'', l_agent_id = ''main'',
     l_token_count = 3, l_created_at = ''2026-02-10T00:00:00.000Z''\<rparr>"

definition lance_only_store :: crystal where
  "lance_only_store = empty_store\<lparr>chunksTable := Some [demo_lance_record]\<rparr>"



text \<open>A store with one active memory.\<close>

definition one_memory_store :: crystal where
  "one_memory_store =
     empty_store\<lparr>memories := [1 \<mapsto> \<lparr>m_text = ''Gateway auth token required since v2026.2.2'',
                                      m_category = Fact, m_confidence = 1, m_source_ids = ''[]'',
                                      m_status = Active,
                                      m_created_at = ''2026-02-15T00:00:00.000Z'',
                                      m_updated_at = ''2026-02-15T00:00:00.000Z''\<rparr>],
                 memories_seq := 1\<rparr>"

section \<open>The dead drop (\<open>worker.ts\<close>)\<close>

text \<open>An object of the R2 bucket: its bytes, the time R2 stored it, and the custom
  metadata written by \<open>handleDrop\<close> (each entry may be missing on an object put by other
  means; \<open>o_size\<close> is the number whose decimal text is stored).\<close>

record r2_object =
  o_body :: bytes
  o_uploaded :: string
  o_agent_id :: "string option"
  o_dropped_at :: "string option"
  o_size :: "nat option"

text \<open>The bucket, keyed by \<open>channel/id\<close>.\<close>

type_synonym bucket = "(string \<times> r2_object) list"

text \<open>The responses: a JSON error with its status, the JSON bodies of a drop
  (\<open>id\<close>, \<open>channel\<close>, \<open>size\<close>, \<open>dropped_at\<close>), of a listing (\<open>channel\<close>, and per blob \<open>id\<close>,
  \<open>size\<close>, \<open>dropped_at\<close>, \<open>agent_id\<close>) and of a confirm (\<open>deleted\<close>), and the octet stream of
  a fetch with its two headers.\<close>

datatype response =
    JsonError nat string
  | DropOk string string nat string
  | ListOk string "(string \<times> nat \<times> string \<times> string) list"
  | BlobBody bytes string string
  | ConfirmOk string

fun status_code :: "response \<Rightarrow> nat" where
  "status_code (JsonError code msg) = code"
| "status_code (DropOk i channel n t) = 200"
| "status_code (ListOk channel blobs) = 200"
| "status_code (BlobBody b agent t) = 200"
| "status_code (ConfirmOk k) = 200"

definition VALID_CHANNELS :: "string list" where
  "VALID_CHANNELS = [''conversations'', ''mirror'']"

definition isValidChannel :: "string \<Rightarrow> bool" where
  "isValidChannel channel = (channel \<in> set VALID_CHANNELS)"

definition blob_key :: "string \<Rightarrow> string \<Rightarrow> string" where
  "blob_key channel i = channel @ ''/'' @ i"

text \<open>\<open>x || d\<close> on an optional string: \<open>d\<close> for a missing and for an empty one.\<close>

definition or_else :: "string option \<Rightarrow> string \<Rightarrow> string" where
  "or_else x d = (case x of None \<Rightarrow> d | Some s \<Rightarrow> if s = [] then d else s)"

text \<open>\<open>handleDrop\<close>, given the UUID and the time it draws.\<close>

definition handleDrop ::
  "bucket \<Rightarrow> string \<Rightarrow> string \<Rightarrow> bytes \<Rightarrow> string \<Rightarrow> string \<Rightarrow> response \<times> bucket" where
  "handleDrop b agentId channel payload uuid now =
     (if \<not> isValidChannel channel
      then (JsonError 400 (''Invalid channel: '' @ channel @ ''. Valid: '' @ join_with '', '' VALID_CHANNELS), b)
      else if length payload = 0 then (JsonError 400 ''Empty payload'', b)
      else if length payload > 100 * 1024 * 1024 then (JsonError 413 ''Payload too large (max 100MB)'', b)
      else
        (DropOk uuid channel (length payload) now,
         AList.update (blob_key channel uuid)
           \<lparr>o_body = payload, o_uploaded = now, o_agent_id = Some agentId,
            o_dropped_at = Some now, o_size = Some (length payload)\<rparr> b))"

text \<open>\<open>RELAY.list({ prefix, include })\<close>: the first page (at most 1000 objects) of the
  objects whose key starts with the prefix, in the order of their keys, each with its
  key, size and upload time. R2 returns the custom metadata of the listed objects only
  when \<open>include\<close> asks for \<open>customMetadata\<close> (compatibility dates from 2022-08-04 on).\<close>

record listed_object =
  lo_key :: string
  lo_size :: nat
  lo_uploaded :: string
  lo_agent_id :: "string option"
  lo_dropped_at :: "string option"

definition r2_list :: "bucket \<Rightarrow> string \<Rightarrow> string list \<Rightarrow> listed_object list" where
  "r2_list b prefix incl =
     map (\<lambda>(k, obj).
            \<lparr>lo_key = k, lo_size = length (o_body obj), lo_uploaded = o_uploaded obj,
             lo_agent_id = (if ''customMetadata'' \<in> set incl then o_agent_id obj else None),
             lo_dropped_at = (if ''customMetadata'' \<in> set incl then o_dropped_at obj else None)\<rparr>)
         (take 1000 (sort_key fst (filter (\<lambda>(k, obj). take (length prefix) k = prefix) b)))"

text \<open>\<open>key.split('/')[1]\<close> for a key with a slash.\<close>

definition second_segment :: "string \<Rightarrow> string" where
  "second_segment k = takeWhile (\<lambda>c. c \<noteq> CHR ''/'') (drop 1 (dropWhile (\<lambda>c. c \<noteq> CHR ''/'') k))"

text \<open>\<open>handlePickupList\<close> lists with the prefix alone.\<close>

definition handlePickupList :: "bucket \<Rightarrow> string \<Rightarrow> response" where
  "handlePickupList b channel =
     (if \<not> isValidChannel channel then JsonError 400 (''Invalid channel: '' @ channel)
      else
        ListOk channel
          (map (\<lambda>obj. (second_segment (lo_key obj), lo_size obj,
                          or_else (lo_dropped_at obj) (lo_uploaded obj),
                          or_else (lo_agent_id obj) ''unknown''))
               (r2_list b (channel @ ''/'') [])))"

definition handlePickup :: "bucket \<Rightarrow> string \<Rightarrow> string \<Rightarrow> response" where
  "handlePickup b channel i =
     (if \<not> isValidChannel channel then JsonError 400 (''Invalid channel: '' @ channel)
      else
        (case map_of b (blob_key channel i) of
           None \<Rightarrow> JsonError 404 ''Blob not found (already picked up or expired)''
         | Some obj \<Rightarrow>
             BlobBody (o_body obj) (or_else (o_agent_id obj) ''unknown'')
               (or_else (o_dropped_at obj) [])))"

definition handleConfirm :: "bucket \<Rightarrow> string \<Rightarrow> string \<Rightarrow> response \<times> bucket" where
  "handleConfirm b channel i =
     (if \<not> isValidChannel channel then (JsonError 400 (''Invalid channel: '' @ channel), b)
      else
        (case map_of b (blob_key channel i) of
           None \<Rightarrow> (JsonError 404 ''Blob not found (already confirmed or expired)'', b)
         | Some obj \<Rightarrow> (ConfirmOk (blob_key channel i), AList.delete (blob_key channel i) b)))"

text \<open>The scheduled sweep: for each channel it lists with the prefix alone, and deletes
  every listed object whose \<open>dropped_at\<close> is present and older than the cutoff of 24
  hours. \<open>getTime\<close> is \<open>new Date(s).getTime()\<close>.\<close>

definition sweep_object :: "(string \<Rightarrow> real) \<Rightarrow> real \<Rightarrow> listed_object \<Rightarrow> bucket \<Rightarrow> bucket" where
  "sweep_object getTime cutoff obj b =
     (case lo_dropped_at obj of
        None \<Rightarrow> b
      | Some droppedAt \<Rightarrow>
          if droppedAt \<noteq> [] \<and> getTime droppedAt < cutoff then AList.delete (lo_key obj) b else b)"

definition sweep_channel :: "(string \<Rightarrow> real) \<Rightarrow> real \<Rightarrow> string \<Rightarrow> bucket \<Rightarrow> bucket" where
  "sweep_channel getTime cutoff channel b =
     fold (sweep_object getTime cutoff) (r2_list b (channel @ ''/'') []) b"

definition scheduled :: "(string \<Rightarrow> real) \<Rightarrow> real \<Rightarrow> bucket \<Rightarrow> bucket" where
  "scheduled getTime now b =
     fold (sweep_channel getTime (now - 24 * 60 * 60 * 1000)) VALID_CHANNELS b"

text \<open>The relay as the requests and the cron trigger see it: the bucket, and the UUIDs
  that \<open>crypto.randomUUID()\<close> has returned so far.\<close>

record relay =
  objects :: bucket
  issued :: "string list"

text \<open>What reaches the relay: a drop (agent, channel, body, the UUID and the time drawn),
  a listing, a fetch, a confirm, and a sweep at a time.\<close>

datatype event =
    Drop string string bytes string string
  | PickupList string
  | Pickup string string
  | Confirm string string
  | Sweep real

text \<open>\<open>handleDrop\<close> reaches \<open>crypto.randomUUID()\<close> when the channel is valid and the body
  is neither empty nor too large.\<close>

definition draws_uuid :: "string \<Rightarrow> bytes \<Rightarrow> bool" where
  "draws_uuid channel payload =
     (isValidChannel channel \<and> length payload \<noteq> 0 \<and> \<not> length payload > 100 * 1024 * 1024)"

fun after_event :: "(string \<Rightarrow> real) \<Rightarrow> relay \<Rightarrow> event \<Rightarrow> relay" where
  "after_event getTime w (Drop agentId channel payload uuid now) =
     \<lparr>objects = snd (handleDrop (objects w) agentId channel payload uuid now),
      issued = (if draws_uuid channel payload then uuid # issued w else issued w)\<rparr>"
| "after_event getTime w (PickupList channel) = w"
| "after_event getTime w (Pickup channel i) = w"
| "after_event getTime w (Confirm channel i) = w\<lparr>objects := snd (handleConfirm (objects w) channel i)\<rparr>"
| "after_event getTime w (Sweep now) = w\<lparr>objects := scheduled getTime now (objects w)\<rparr>"

definition after_events :: "(string \<Rightarrow> real) \<Rightarrow> relay \<Rightarrow> event list \<Rightarrow> relay" where
  "after_events getTime w es = foldl (after_event getTime) w es"

text \<open>\<open>crypto.randomUUID()\<close> returns a version 4 UUID of 122 random bits: each one it
  returns is one it has not returned before. \<open>draws_fresh\<close> holds of the event sequences
  in which every drop that draws a UUID draws such a one.\<close>

fun fresh_draw :: "relay \<Rightarrow> event \<Rightarrow> bool" where
  "fresh_draw w (Drop agentId channel payload uuid now) =
     (\<not> (draws_uuid channel payload \<and> uuid \<in> set (issued w)))"
| "fresh_draw w e = True"

fun draws_fresh :: "(string \<Rightarrow> real) \<Rightarrow> relay \<Rightarrow> event list \<Rightarrow> bool" where
  "draws_fresh getTime w [] = True"
| "draws_fresh getTime w (e # es) =
     (fresh_draw w e \<and> draws_fresh getTime (after_event getTime w e) es)"

text \<open>A relay with nothing stored and no UUID drawn, and the reading of the times used
  below.\<close>

definition new_relay :: relay where
  "new_relay = \<lparr>objects = [], issued = []\<rparr>"

definition epoch_clock :: "string \<Rightarrow> real" where
  "epoch_clock s = (if s = ''1970-01-01T00:00:01.000Z'' then 1000 else 0)"

section \<open>Sealed payloads (\<open>crypto.ts\<close>)\<close>

text \<open>The primitives of \<open>node:crypto\<close> and of \<open>Buffer\<close> that the code calls: HKDF-SHA-256
  (key, salt, info, length), HMAC-SHA-256 as hex (key, data), AES-256-GCM (key, nonce,
  then the plaintext, or the ciphertext and the tag; \<open>None\<close> is the failure of
  \<open>decipher.final\<close>), base64, and SHA-256 as hex.\<close>

record crypto =
  hkdf_sha256 :: "bytes \<Rightarrow> bytes \<Rightarrow> bytes \<Rightarrow> nat \<Rightarrow> bytes"
  hmac_sha256_hex :: "bytes \<Rightarrow> bytes \<Rightarrow> string"
  aes_gcm_encrypt :: "bytes \<Rightarrow> bytes \<Rightarrow> bytes \<Rightarrow> bytes \<times> bytes"
  aes_gcm_decrypt :: "bytes \<Rightarrow> bytes \<Rightarrow> bytes \<Rightarrow> bytes \<Rightarrow> bytes option"
  base64_encode :: "bytes \<Rightarrow> string"
  base64_decode :: "string \<Rightarrow> bytes"
  sha256_digest_hex :: "bytes \<Rightarrow> string"

record EncryptedPayload =
  p_v :: int
  p_nonce :: string
  p_ciphertext :: string
  p_tag :: string
  p_hmac :: string

datatype crypto_error = UnknownVersion int | HmacFailed | AuthTagFailed | BadPlaintext

definition deriveSigningKey :: "crypto \<Rightarrow> bytes \<Rightarrow> bytes" where
  "deriveSigningKey C masterKey = hkdf_sha256 C masterKey [] ''crystal-relay-sign'' 32"

text \<open>\<open>encrypt\<close>, given the 12 random bytes it draws.\<close>

definition encrypt :: "crypto \<Rightarrow> bytes \<Rightarrow> bytes \<Rightarrow> bytes \<Rightarrow> EncryptedPayload" where
  "encrypt C nonce plaintext masterKey =
     (let (ciphertext, tg) = aes_gcm_encrypt C masterKey nonce plaintext;
          signingKey = deriveSigningKey C masterKey;
          hmacData = nonce @ ciphertext @ tg;
          hm = hmac_sha256_hex C signingKey hmacData
      in \<lparr>p_v = 1, p_nonce = base64_encode C nonce, p_ciphertext = base64_encode C ciphertext,
          p_tag = base64_encode C tg, p_hmac = hm\<rparr>)"

definition expectedHmac :: "crypto \<Rightarrow> EncryptedPayload \<Rightarrow> bytes \<Rightarrow> string" where
  "expectedHmac C payload masterKey =
     hmac_sha256_hex C (deriveSigningKey C masterKey)
       (base64_decode C (p_nonce payload) @ base64_decode C (p_ciphertext payload)
        @ base64_decode C (p_tag payload))"

definition decrypt :: "crypto \<Rightarrow> EncryptedPayload \<Rightarrow> bytes \<Rightarrow> crypto_error + bytes" where
  "decrypt C payload masterKey =
     (if p_v payload \<noteq> 1 then Inl (UnknownVersion (p_v payload))
      else if p_hmac payload \<noteq> expectedHmac C payload masterKey then Inl HmacFailed
      else
        (case aes_gcm_decrypt C masterKey (base64_decode C (p_nonce payload))
                (base64_decode C (p_ciphertext payload)) (base64_decode C (p_tag payload)) of
           None \<Rightarrow> Inl AuthTagFailed
         | Some plaintext \<Rightarrow> Inr plaintext))"

text \<open>HKDF and HMAC taken as free of collisions: different master keys give different
  signing keys, and the HMAC tells apart any two pairs of key and data. No function onto
  32 bytes is so; it is the idealisation under which another key, or other bytes, can
  be said to be rejected always.\<close>

definition collision_free :: "crypto \<Rightarrow> bool" where
  "collision_free C =
     ((\<forall>k k'. deriveSigningKey C k = deriveSigningKey C k' \<longrightarrow> k = k') \<and>
      (\<forall>k dat k' dat'. hmac_sha256_hex C k dat = hmac_sha256_hex C k' dat' \<longrightarrow>
                         k = k' \<and> dat = dat'))"

definition hashBuffer :: "crypto \<Rightarrow> bytes \<Rightarrow> string" where
  "hashBuffer C dat = sha256_digest_hex C dat"

text \<open>Base64 as \<open>Buffer\<close> has it. \<open>buf.toString('base64')\<close> writes each three bytes as four
  characters of the alphabet and pads the last group with \<open>=\<close>. \<open>Buffer.from(s, 'base64')\<close>
  reads up to the first \<open>=\<close>, skips every character that is not of the alphabet (to which
  it counts \<open>-\<close> and \<open>_\<close> of the URL-safe variant), takes six bits from each character,
  and keeps the whole bytes: the bits left over in the last character are dropped.\<close>

definition base64_alphabet :: string where
  "base64_alphabet = ''ABCDEFGHIJKLMNOPQRSTUVWXYZabcdefghijklmnopqrstuvwxyz0123456789+/''"

fun toString_base64 :: "bytes \<Rightarrow> string" where
  "toString_base64 [] = []"
| "toString_base64 [a] =
     (let x = (of_char a :: nat)
      in [base64_alphabet ! (x div 4), base64_alphabet ! ((x mod 4) * 16), CHR ''='', CHR ''=''])"
| "toString_base64 [a, b] =
     (let x = (of_char a :: nat); y = (of_char b :: nat)
      in [base64_alphabet ! (x div 4), base64_alphabet ! ((x mod 4) * 16 + y div 16),
          base64_alphabet ! ((y mod 16) * 4), CHR ''=''])"
| "toString_base64 (a # b # c # rest) =
     (let x = (of_char a :: nat); y = (of_char b :: nat); z = (of_char c :: nat)
      in [base64_alphabet ! (x div 4), base64_alphabet ! ((x mod 4) * 16 + y div 16),
          base64_alphabet ! ((y mod 16) * 4 + z div 64), base64_alphabet ! (z mod 64)]
         @ toString_base64 rest)"

primrec position :: "char \<Rightarrow> string \<Rightarrow> nat option" where
  "position c [] = None"
| "position c (x # xs) = (if c = x then Some 0 else map_option Suc (position c xs))"

definition unbase64 :: "char \<Rightarrow> nat option" where
  "unbase64 c =
     (if c = CHR ''-'' then Some 62 else if c = CHR ''_'' then Some 63
      else position c base64_alphabet)"

fun bytes_of_sextets :: "nat list \<Rightarrow> bytes" where
  "bytes_of_sextets (a # b # c # d # rest) =
     [char_of (a * 4 + b div 16), char_of ((b mod 16) * 16 + c div 4), char_of ((c mod 4) * 64 + d)]
     @ bytes_of_sextets rest"
| "bytes_of_sextets [a, b, c] = [char_of (a * 4 + b div 16), char_of ((b mod 16) * 16 + c div 4)]"
| "bytes_of_sextets [a, b] = [char_of (a * 4 + b div 16)]"
| "bytes_of_sextets [a] = []"
| "bytes_of_sextets [] = []"

definition from_base64 :: "string \<Rightarrow> bytes" where
  "from_base64 s =
     bytes_of_sextets (List.map_filter unbase64 (takeWhile (\<lambda>c. c \<noteq> CHR ''='') s))"

section \<open>Mirror pull (\<open>mirror-sync.ts\<close>)\<close>

record MirrorState =
  lastSync :: "string option"
  lastHash :: "string option"
  lastSize :: "int option"

record mirror_meta =
  meta_hash :: string
  meta_size :: int
  meta_pushed_at :: string

record blob_info =
  b_id :: string
  b_size :: int
  b_dropped_at :: string

text \<open>The device: the two environment variables, the relay key that \<open>loadRelayKey\<close>
  returns (\<open>None\<close> when it throws), the mirror file with its \<open>.tmp\<close> and \<open>.bak\<close>
  neighbours, the state file (\<open>None\<close> when absent or unreadable), and the \<open>DELETE\<close>
  requests sent so far.\<close>

record device =
  RELAY_URL :: string
  RELAY_TOKEN :: string
  relay_key :: "bytes option"
  mirror_db :: "bytes option"
  mirror_tmp :: "bytes option"
  mirror_bak :: "bytes option"
  state_file :: "MirrorState option"
  confirms_sent :: "string list"

text \<open>What one pull meets outside the device: the relay's answers to the listing and
  to the fetch of a blob, the two \<open>JSON.parse\<close> calls, the clock, and whether the rename
  to \<open>.bak\<close> succeeds. The other file system calls are taken to succeed, and a request
  that is answered at all is answered with a status.\<close>

record pull_env =
  list_status :: nat
  list_count :: int
  list_blobs :: "blob_info list"
  blob_status :: "string \<Rightarrow> nat"
  blob_text :: "string \<Rightarrow> string"
  parse_mirror_payload :: "string \<Rightarrow> (EncryptedPayload \<times> EncryptedPayload) option"
  parse_meta :: "bytes \<Rightarrow> mirror_meta option"
  pull_time :: string
  backup_rename_ok :: bool

datatype pull_error =
    MissingRelayConfig
  | RelayKeyUnavailable
  | RelayListFailed nat
  | NoBlobListed
  | MirrorFetchFailed nat
  | MalformedBlob
  | Crypto crypto_error
  | IntegrityCheckFailed string string

definition response_ok :: "nat \<Rightarrow> bool" where
  "response_ok code = (200 \<le> code \<and> code \<le> 299)"

definition loadState :: "device \<Rightarrow> MirrorState" where
  "loadState d =
     (case state_file d of
        Some s \<Rightarrow> s
      | None \<Rightarrow> \<lparr>lastSync = None, lastHash = None, lastSize = None\<rparr>)"

definition decryptMeta :: "crypto \<Rightarrow> pull_env \<Rightarrow> EncryptedPayload \<Rightarrow> bytes \<Rightarrow> crypto_error + mirror_meta" where
  "decryptMeta C P payload masterKey =
     (case decrypt C payload masterKey of
        Inl e \<Rightarrow> Inl e
      | Inr plaintext \<Rightarrow>
          (case parse_meta P plaintext of None \<Rightarrow> Inl BadPlaintext | Some m \<Rightarrow> Inr m))"

text \<open>
  The first part of \<open>pullMirror\<close>, which only reads: up to and including the decryption
  of the database. \<open>Inl\<close> is the outcome when the pull ends there (an error, or \<open>false\<close>
  for nothing to do); \<open>Inr\<close> carries the decrypted metadata, the decrypted database bytes
  and the listed blobs.
\<close>

definition pull_download ::
  "crypto \<Rightarrow> pull_env \<Rightarrow> bool \<Rightarrow> device \<Rightarrow> (pull_error + bool) + (mirror_meta \<times> bytes \<times> blob_info list)" where
  "pull_download C P force d =
     (if RELAY_URL d = [] \<or> RELAY_TOKEN d = [] then Inl (Inl MissingRelayConfig)
      else
        (case relay_key d of
           None \<Rightarrow> Inl (Inl RelayKeyUnavailable)
         | Some relayKey \<Rightarrow>
             if \<not> response_ok (list_status P) then Inl (Inl (RelayListFailed (list_status P)))
             else if list_count P = 0 then Inl (Inr False)
             else if list_blobs P = [] then Inl (Inl NoBlobListed)
             else
               (let latestBlob = last (list_blobs P)
                in if \<not> response_ok (blob_status P (b_id latestBlob))
                   then Inl (Inl (MirrorFetchFailed (blob_status P (b_id latestBlob))))
                   else
                     (case parse_mirror_payload P (blob_text P (b_id latestBlob)) of
                        None \<Rightarrow> Inl (Inl MalformedBlob)
                      | Some (metaPayload, dbPayload) \<Rightarrow>
                          (case decryptMeta C P metaPayload relayKey of
                             Inl e \<Rightarrow> Inl (Inl (Crypto e))
                           | Inr meta \<Rightarrow>
                               if \<not> force \<and> lastHash (loadState d) = Some (meta_hash meta)
                               then Inl (Inr False)
                               else
                                 (case decrypt C dbPayload relayKey of
                                    Inl e \<Rightarrow> Inl (Inl (Crypto e))
                                  | Inr dbData \<Rightarrow> Inr (meta, dbData, list_blobs P)))))))"

text \<open>The atomic replace: write \<open>.tmp\<close>, move an existing mirror to \<open>.bak\<close> (a failure is
  ignored), rename \<open>.tmp\<close> onto the mirror.\<close>

definition install_mirror :: "pull_env \<Rightarrow> bytes \<Rightarrow> device \<Rightarrow> device" where
  "install_mirror P dbData d =
     (let d1 = d\<lparr>mirror_tmp := Some dbData\<rparr>;
          d2 = (if mirror_db d1 \<noteq> None \<and> backup_rename_ok P
                then d1\<lparr>mirror_bak := mirror_db d1, mirror_db := None\<rparr> else d1)
      in d2\<lparr>mirror_db := mirror_tmp d2, mirror_tmp := None\<rparr>)"

definition pullMirror :: "crypto \<Rightarrow> pull_env \<Rightarrow> bool \<Rightarrow> device \<Rightarrow> (pull_error + bool) \<times> device" where
  "pullMirror C P force d =
     (case pull_download C P force d of
        Inl outcome \<Rightarrow> (outcome, d)
      | Inr (meta, dbData, blobs) \<Rightarrow>
          (let actualHash = hashBuffer C dbData
           in if actualHash \<noteq> meta_hash meta
              then (Inl (IntegrityCheckFailed (meta_hash meta) actualHash), d)
              else
                (let d1 = install_mirror P dbData d;
                     state = (loadState d)\<lparr>lastSync := Some (pull_time P),
                                            lastHash := Some (meta_hash meta),
                                            lastSize := Some (int (length dbData))\<rparr>;
                     d2 = d1\<lparr>state_file := Some state\<rparr>
                 in (Inr True, d2\<lparr>confirms_sent := confirms_sent d2 @ map b_id blobs\<rparr>))))"

text \<open>Toy primitives, for concrete runs only: the identity for the encodings and the
  hash, concatenation for the HMAC, and a cipher that prefixes the key.\<close>

definition toy_crypto :: crypto where
  "toy_crypto =
     \<lparr>hkdf_sha256 = (\<lambda>k salt info n. k @ info),
      hmac_sha256_hex = (\<lambda>k dat. k @ dat),
      aes_gcm_encrypt = (\<lambda>k n m. (m, k @ n)),
      aes_gcm_decrypt = (\<lambda>k n c t. if t = k @ n then Some c else None),
      base64_encode = (\<lambda>b. b),
      base64_decode = (\<lambda>s. s),
      sha256_digest_hex = (\<lambda>b. b)\<rparr>"

text \<open>Toy primitives with the base64 of \<open>Buffer\<close>, an HMAC that writes the length of
  the key before the key and the data, and a tag of 16 bytes; and a key of 32 bytes and
  a nonce of 12.\<close>

definition toy_node_crypto :: crypto where
  "toy_node_crypto =
     \<lparr>hkdf_sha256 = (\<lambda>k salt info n. info @ k),
      hmac_sha256_hex = (\<lambda>k dat. replicate (length k) (CHR ''1'') @ CHR ''0'' # k @ dat),
      aes_gcm_encrypt = (\<lambda>k n m. (m, take 16 (n @ k))),
      aes_gcm_decrypt = (\<lambda>k n c t. if t = take 16 (n @ k) then Some c else None),
      base64_encode = toString_base64,
      base64_decode = from_base64,
      sha256_digest_hex = (\<lambda>b. b)\<rparr>"

definition toy_key :: bytes where
  "toy_key = ''key0key1key2key3key4key5key6key7''"

definition toy_nonce :: bytes where
  "toy_nonce = ''0123456789ab''"

definition toy_pull_env :: pull_env where
  "toy_pull_env =
     \<lparr>list_status = 200, list_count = 1,
      list_blobs = [\<lparr>b_id = ''X'', b_size = 10, b_dropped_at = ''2026-02-15T00:00:00.000Z''\<rparr>],
      blob_status = (\<lambda>i. 200),
      blob_text = (\<lambda>i. []),
      parse_mirror_payload = (\<lambda>s. Some (encrypt toy_crypto ''n1'' ''H1'' ''k'',
                                          encrypt toy_crypto ''n2'' ''other bytes'' ''k'')),
      parse_meta = (\<lambda>b. Some \<lparr>meta_hash = b, meta_size = 11, meta_pushed_at = ''2026-02-15T00:00:00.000Z''\<rparr>),
      pull_time = ''2026-02-16T00:00:00.000Z'',
      backup_rename_ok = True\<rparr>"

definition toy_device :: device where
  "toy_device =
     \<lparr>RELAY_URL = ''https://relay'', RELAY_TOKEN = ''token'', relay_key = Some ''k'',
      mirror_db = Some ''H0'', mirror_tmp = None, mirror_bak = None,
      state_file = Some \<lparr>lastSync = Some ''2026-02-15T00:00:00.000Z'', lastHash = Some ''H0'', lastSize = Some 2\<rparr>,
      confirms_sent = []\<rparr>"

section \<open>Properties of the chunker\<close>

lemma window_end_beyond_middle:
  assumes "0 < targetChars" and "window_end text targetChars start < int (length text)"
  shows "start + targetChars div 2 < window_end text targetChars start"
proof -
  have "targetChars div 2 < targetChars" using assms(1) by simp
  then show ?thesis
    using assms(2) by (auto simp: window_end_def Let_def split: if_splits)
qed

lemma chunk_iter_progress:
  assumes "0 < targetChars" and "2 * overlapChars \<le> targetChars"
    and "chunk_iter text targetChars overlapChars start cs0 = Next start' cs'"
  shows "start < start'"
proof -
  let ?e = "window_end text targetChars start"
  from assms(3) have lt: "?e < int (length text)"
    by (auto simp: chunk_iter_def Let_def split: if_splits)
  have mid: "start + targetChars div 2 < ?e"
    by (rule window_end_beyond_middle[OF assms(1) lt])
  have half: "overlapChars \<le> targetChars div 2" using assms(2) by simp
  have nonneg: "0 \<le> targetChars div 2" using assms(1) by simp
  from assms(3) have "start' = ?e \<or> start' = ?e - overlapChars"
    by (auto simp: chunk_iter_def Let_def split: if_splits)
  then show ?thesis using mid half nonneg by auto
qed

text \<open>When the overlap is at most half the target (as with the defaults 400 and 80), every
  window starts beyond the previous one, so the chunker returns.\<close>

lemma chunk_loop_returns:
  assumes "0 < targetChars" and "2 * overlapChars \<le> targetChars"
  shows "\<exists>cs. chunk_loop text targetChars overlapChars start cs0 = Some cs"
proof (induction "nat (int (length text) - start)" arbitrary: start cs0 rule: less_induct)
  case less
  show ?case
  proof (cases "start < int (length text)")
    case False
    then show ?thesis by (subst chunk_loop.simps) simp
  next
    case True
    show ?thesis
    proof (cases "chunk_iter text targetChars overlapChars start cs0")
      case (Done cs)
      with True show ?thesis by (subst chunk_loop.simps) simp
    next
      case (Next start' cs)
      have "start < start'" by (rule chunk_iter_progress[OF assms Next])
      with True have "nat (int (length text) - start') < nat (int (length text) - start)"
        by simp
      from less[OF this] obtain r where
        "chunk_loop text targetChars overlapChars start' cs = Some r" by blast
      with True Next show ?thesis by (subst chunk_loop.simps) simp
    qed
  qed
qed

lemma chunkText_returns_small_overlap:
  assumes "0 < targetTokens" and "2 * overlapTokens \<le> targetTokens"
  shows "\<exists>cs. chunkText text targetTokens overlapTokens = Some cs"
  unfolding chunkText_def using assms by (intro chunk_loop_returns) auto

lemma chunkText_returns_defaults: "\<exists>cs. chunkText text 400 80 = Some cs"
  by (rule chunkText_returns_small_overlap) simp_all

lemma para_text_length: "int (length para_text) = 19"
  by (simp add: para_text_def)

lemma para_text_first_window:
  "chunk_iter para_text 12 8 0 [] = Next (- 1) [''aaaaaaa'']"
  by code_simp

lemma para_text_stuck_window:
  "chunk_iter para_text 12 8 (- 1) [''aaaaaaa''] = Next (- 1) [''aaaaaaa'']"
  by code_simp

lemma para_text_loops: "chunk_loop para_text 12 8 (- 1) [''aaaaaaa''] = None"
proof (rule ccontr)
  assume "chunk_loop para_text 12 8 (- 1) [''aaaaaaa''] \<noteq> None"
  then obtain r where r: "chunk_loop para_text 12 8 (- 1) [''aaaaaaa''] = Some r" by auto
  define stuck where "stuck t tc oc s cs \<longleftrightarrow>
     t = para_text \<and> tc = 12 \<and> oc = 8 \<and> s = - 1 \<and> cs = [''aaaaaaa'']"
    for t :: string and tc oc s :: int and cs :: "string list"
  have "\<not> stuck para_text 12 8 (- 1) [''aaaaaaa'']"
  proof (rule chunk_loop.raw_induct[where P = "\<lambda>t tc oc s cs y. \<not> stuck t tc oc s cs", OF _ r])
    fix f t tc oc s cs and y :: "string list"
    assume IH: "\<And>t tc oc s cs y. f t tc oc s cs = Some y \<Longrightarrow> \<not> stuck t tc oc s cs"
      and body: "(if s < int (length t) then
                   (case chunk_iter t tc oc s cs of Done cs \<Rightarrow> Some cs
                    | Next start' cs \<Rightarrow> f t tc oc start' cs)
                  else Some cs) = Some y"
    show "\<not> stuck t tc oc s cs"
    proof
      assume st: "stuck t tc oc s cs"
      with body have "f t tc oc s cs = Some y"
        by (simp add: stuck_def para_text_stuck_window para_text_length)
      from IH[OF this] st show False by simp
    qed
  qed
  then show False by (simp add: stuck_def)
qed

text \<open>
  Claim C9. For every text and every positive \<open>target_tokens\<close> and \<open>overlap_tokens\<close> the
  chunker terminates, the next window starting at \<open>end - 4 * overlap_tokens\<close> clamped so
  that it never regresses below the previous start. The code does not do this: with
  \<open>target_tokens = 3\<close> and \<open>overlap_tokens = 2\<close> on \<open>para_text\<close> the first window is snapped
  back to the blank line at index 7, the next start is \<open>7 - 8 = -1\<close>, below the previous
  start 0 (the clamp compares with \<open>end - targetChars = -5\<close>, not with the previous start),
  and from \<open>start = -1\<close> the loop repeats the same window for ever.
\<close>

theorem chunkText_overlap_beyond_half_never_returns:
  "chunkText para_text 3 2 = None"
  unfolding chunkText_def
  by (subst chunk_loop.simps)
     (simp add: para_text_first_window para_text_length para_text_loops)

section \<open>Properties of the recency helpers\<close>

text \<open>
  Claim C8. The freshness label as a function of the age in days is exactly: \<open>fresh\<close> for
  age \<open>< 3\<close>, \<open>recent\<close> for \<open>3 \<le> age < 7\<close>, \<open>aging\<close> for \<open>7 \<le> age < 14\<close>, and \<open>stale\<close> for
  age \<open>\<ge> 14\<close>.
\<close>

theorem freshnessLabel_buckets:
  "(freshnessLabel age = Fresh \<longleftrightarrow> age < 3) \<and>
   (freshnessLabel age = Recent \<longleftrightarrow> 3 \<le> age \<and> age < 7) \<and>
   (freshnessLabel age = Aging \<longleftrightarrow> 7 \<le> age \<and> age < 14) \<and>
   (freshnessLabel age = Stale \<longleftrightarrow> 14 \<le> age)"
  by (simp add: freshnessLabel_def)

text \<open>The label that \<open>search\<close> attaches is this function of the age, for every result
  with a creation time.\<close>

lemma rescore_freshness:
  "freshness (rescore E r) =
     (if r_created_at r \<noteq> [] then Some (freshnessLabel (age_days E (r_created_at r))) else None)"
  by (simp add: rescore_def Let_def)

lemma recencyWeight_range: "1 / 2 \<le> recencyWeight age \<and> (0 \<le> age \<longrightarrow> recencyWeight age \<le> 1)"
  by (simp add: recencyWeight_def)

section \<open>Properties of the fusion\<close>

lemma rrf_add_key_score:
  "key_score (rrf_add w k rank r sc) d =
     key_score sc d + (if d = dedup_key r then w / (k + real rank + 1) else 0)"
  by (simp add: rrf_add_def key_score_def Let_def update_conv' split: option.splits)

lemma rrf_add_distinct:
  "distinct (map fst sc) \<Longrightarrow> distinct (map fst (rrf_add w k rank r sc))"
  by (simp add: rrf_add_def Let_def distinct_update split: option.splits)

lemma rrf_list_distinct:
  "distinct (map fst sc) \<Longrightarrow> distinct (map fst (rrf_list w k rank rs sc))"
  by (induction rs arbitrary: rank sc) (simp_all add: rrf_add_distinct)

lemma rrf_list_key_score_le:
  assumes "0 \<le> w" and "0 \<le> k"
  shows "distinct (map dedup_key rs) \<Longrightarrow>
         key_score (rrf_list w k rank rs sc) d
           \<le> key_score sc d + (if d \<in> dedup_key ` set rs then w / (k + real rank + 1) else 0)"
proof (induction rs arbitrary: rank sc)
  case Nil
  then show ?case by simp
next
  case (Cons r rs)
  have later: "w / (k + real (Suc rank) + 1) \<le> w / (k + real rank + 1)"
    using assms by (intro divide_left_mono) (auto intro!: mult_pos_pos add_nonneg_pos)
  have pos: "0 \<le> w / (k + real rank + 1)"
    using assms by simp
  from Cons.prems have d: "distinct (map dedup_key rs)" and n: "dedup_key r \<notin> dedup_key ` set rs"
    by auto
  have "key_score (rrf_list w k rank (r # rs) sc) d
          = key_score (rrf_list w k (Suc rank) rs (rrf_add w k rank r sc)) d"
    by simp
  also have "\<dots> \<le> key_score (rrf_add w k rank r sc) d
                    + (if d \<in> dedup_key ` set rs then w / (k + real (Suc rank) + 1) else 0)"
    by (rule Cons.IH[OF d])
  also have "\<dots> \<le> key_score sc d
                    + (if d \<in> dedup_key ` set (r # rs) then w / (k + real rank + 1) else 0)"
    using later pos n by (auto simp: rrf_add_key_score)
  finally show ?case .
qed

lemma rrf_two_lists_key_score:
  assumes "distinct (map dedup_key l1)" and "distinct (map dedup_key l2)"
  shows "key_score (rrf_lists [1.0, 1.0] 60 0 [l1, l2] []) d \<le> 2 * (1 / (60 + 1))"
proof -
  let ?s1 = "rrf_list 1 60 0 l1 []"
  have one: "key_score ?s1 d \<le> key_score [] d + (if d \<in> dedup_key ` set l1 then 1 / (60 + real 0 + 1) else 0)"
    by (rule rrf_list_key_score_le[OF _ _ assms(1)]) simp_all
  have two: "key_score (rrf_list 1 60 0 l2 ?s1) d
               \<le> key_score ?s1 d + (if d \<in> dedup_key ` set l2 then 1 / (60 + real 0 + 1) else 0)"
    by (rule rrf_list_key_score_le[OF _ _ assms(2)]) simp_all
  have "key_score (rrf_list 1 60 0 l2 ?s1) d \<le> 2 * (1 / (60 + 1))"
    using one two by (simp add: key_score_def split: if_splits)
  then show ?thesis by simp
qed

lemma entry_key_score:
  "distinct (map fst sc) \<Longrightarrow> (d, e) \<in> set sc \<Longrightarrow> rrfScore e = key_score sc d"
  by (simp add: key_score_def)

lemma top_rank_bonus_le: "rrfScore (top_rank_bonus e) \<le> rrfScore e + 0.05"
  by (simp add: top_rank_bonus_def)

lemma rrf_lists_two_distinct:
  "distinct (map fst (rrf_lists ws k 0 [l1, l2] []))"
  by (simp add: rrf_list_distinct)

lemma reciprocalRankFusion_score:
  assumes "r \<in> set (reciprocalRankFusion ls ws k)"
  shows "\<exists>d e. (d, e) \<in> set (rrf_lists ws k 0 ls []) \<and> score r = rrfScore (top_rank_bonus e)"
proof -
  from assms obtain p where p: "p \<in> set (rrf_lists ws k 0 ls [])"
    and r: "r = (result (top_rank_bonus (snd p)))\<lparr>score := rrfScore (top_rank_bonus (snd p))\<rparr>"
    by (auto simp: reciprocalRankFusion_def)
  from p have "(fst p, snd p) \<in> set (rrf_lists ws k 0 ls [])" by simp
  moreover from r have "score r = rrfScore (top_rank_bonus (snd p))" by simp
  ultimately show ?thesis by blast
qed

text \<open>
  Claim C4, as amended. For two ranked result lists in each of which no two results share
  the first 200 characters of their text, fused with \<open>k = 60\<close> and weights \<open>(1.0, 1.0)\<close>,
  every fused score (the top-rank bonus included) is at most \<open>2 * (1 / (k + 1)) + 0.05\<close>.
\<close>

theorem rrf_score_bound:
  assumes "distinct (map dedup_key l1)" and "distinct (map dedup_key l2)"
    and "r \<in> set (reciprocalRankFusion [l1, l2] [1.0, 1.0] 60)"
  shows "score r \<le> 2 * (1 / (60 + 1)) + 0.05"
proof -
  from reciprocalRankFusion_score[OF assms(3)] obtain d e where
    mem: "(d, e) \<in> set (rrf_lists [1.0, 1.0] 60 0 [l1, l2] [])"
    and sc: "score r = rrfScore (top_rank_bonus e)" by blast
  have "rrfScore e = key_score (rrf_lists [1.0, 1.0] 60 0 [l1, l2] []) d"
    by (rule entry_key_score[OF rrf_lists_two_distinct mem])
  also have "\<dots> \<le> 2 * (1 / (60 + 1))"
    by (rule rrf_two_lists_key_score[OF assms(1,2)])
  finally have "rrfScore e \<le> 2 * (1 / (60 + 1))" .
  with top_rank_bonus_le[of e] sc show ?thesis by simp
qed

text \<open>
  The bound fails without that condition: two results that share their first 200
  characters are one entry of the fusion, which collects the contributions of both ranks
  of both lists.
\<close>

lemma long_result_key: "dedup_key (long_result c) = replicate 200 (CHR ''x'')"
  by (simp add: dedup_key_def long_result_def slice_def)

lemma long_results_fused:
  "map score (reciprocalRankFusion
      [[long_result CHR ''a'', long_result CHR ''b''], [long_result CHR ''a'', long_result CHR ''b'']]
      [1.0, 1.0] 60) = [2 * (1 / 61) + 2 * (1 / 62) + 0.05]"
  by (simp add: reciprocalRankFusion_def rrf_add_def long_result_key top_rank_bonus_def Let_def)

theorem rrf_score_bound_counterexample:
  "\<not> (\<forall>r \<in> set (reciprocalRankFusion
      [[long_result CHR ''a'', long_result CHR ''b''], [long_result CHR ''a'', long_result CHR ''b'']]
      [1.0, 1.0] 60). score r \<le> 2 * (1 / (60 + 1)) + 0.05)"
proof
  let ?out = "reciprocalRankFusion
      [[long_result CHR ''a'', long_result CHR ''b''], [long_result CHR ''a'', long_result CHR ''b'']]
      [1.0, 1.0] 60"
  assume a: "\<forall>r \<in> set ?out. score r \<le> 2 * (1 / (60 + 1)) + 0.05"
  have "2 * (1 / 61) + 2 * (1 / 62) + 0.05 \<in> set (map score ?out)"
    by (simp only: long_results_fused list.set insertI1)
  then obtain r where "r \<in> set ?out" and "score r = 2 * (1 / 61) + 2 * (1 / 62) + 0.05"
    by auto
  with a have "2 * (1 / 61) + 2 * (1 / 62) + 0.05 \<le> 2 * (1 / (60 + 1)) + (0.05 :: real)"
    by metis
  then show False by simp
qed

lemma one_each_fused:
  "map score (reciprocalRankFusion [[long_result CHR ''a''], [long_result CHR ''a'']] [1.0, 1.0] 60)
     = [2 * (1 / 61) + 0.05]"
  by (simp add: reciprocalRankFusion_def rrf_add_def long_result_key top_rank_bonus_def Let_def)

theorem rrf_score_bound_witness:
  "\<exists>r \<in> set (reciprocalRankFusion [[long_result CHR ''a''], [long_result CHR ''a'']] [1.0, 1.0] 60).
     score r = 2 * (1 / 61) + 0.05 \<and> score r \<le> 2 * (1 / (60 + 1)) + 0.05"
proof -
  let ?out = "reciprocalRankFusion [[long_result CHR ''a''], [long_result CHR ''a'']] [1.0, 1.0] 60"
  have "2 * (1 / 61) + 0.05 \<in> set (map score ?out)"
    by (simp only: one_each_fused list.set insertI1)
  then obtain r where r: "r \<in> set ?out" and s: "score r = 2 * (1 / 61) + 0.05"
    by auto
  have "score r \<le> 2 * (1 / (60 + 1)) + 0.05"
    by (rule rrf_score_bound[OF _ _ r]) simp_all
  with r s show ?thesis by blast
qed

section \<open>Properties of the search\<close>

text \<open>
  Claim C5, as amended. If the SQLite store contains no chunks and no LanceDB table is
  open, \<open>search\<close> returns the empty list for every query, limit and filter.
\<close>

theorem search_empty_store:
  assumes "count_chunks st = 0" and "chunksTable st = None"
  shows "search E st query limit f = Inr []"
  using assms by (simp add: search_def uses_fallback_def searchLanceFallback_def count_chunks_def)

theorem search_empty_store_witness:
  "count_chunks empty_store = 0 \<and> chunksTable empty_store = None \<and>
   search demo_env empty_store ''policy'' 5 None = Inr []"
  using search_empty_store[of empty_store demo_env "''policy''" 5 None]
  by (simp add: empty_store_def count_chunks_def)

text \<open>
  With no chunk in SQLite but a record in the LanceDB table (the state before the
  migration), \<open>search\<close> answers from LanceDB.
\<close>

theorem search_empty_store_counterexample:
  "count_chunks lance_only_store = 0 \<and>
   search demo_env lance_only_store ''policy'' 5 None \<noteq> Inr []"
  by (simp add: lance_only_store_def empty_store_def count_chunks_def search_def uses_fallback_def
      searchLanceFallback_def embed_def demo_env_def by_score_desc_def slice_def
      lance_wheres_def filter_agent_def filter_source_def)


























section \<open>Properties of the ingest\<close>

lemma insertChunk_chunks:
  "insertChunk E st c = (i, st') \<Longrightarrow> length (chunks st') = Suc (length (chunks st))"
  by (auto simp: insertChunk_def Let_def)

lemma insertVec_chunks: "insertVec st i v = Some st' \<Longrightarrow> chunks st' = chunks st"
  by (auto simp: insertVec_def split: option.splits prod.splits if_splits)

lemma insert_all_count:
  "insert_all E embeddings i cs st = Some st' \<Longrightarrow>
   length (chunks st') = length (chunks st) + length cs"
proof (induction cs arbitrary: i st)
  case Nil
  then show ?case by simp
next
  case (Cons c cs)
  obtain chunkId st1 where ic: "insertChunk E st c = (chunkId, st1)" by force
  with Cons.prems obtain st2 where
    iv: "insertVec st1 chunkId (if i < length embeddings then embeddings ! i else []) = Some st2"
    and rest: "insert_all E embeddings (Suc i) cs st2 = Some st'"
    by (auto simp: Let_def split: option.splits)
  from Cons.IH[OF rest] insertVec_chunks[OF iv] insertChunk_chunks[OF ic]
  show ?case by simp
qed

lemma ensureVecTable_chunks: "ensureVecTable st d = Some st1 \<Longrightarrow> chunks st1 = chunks st"
  by (auto simp: ensureVecTable_def split: option.splits if_splits)

lemma lance_dual_write_chunks: "chunks (lance_dual_write E st rs) = chunks st"
  by (simp add: lance_dual_write_def split: option.splits)

lemma ingest_count:
  assumes "ingest E st cs = (Inr n, st')"
  shows "n = length (filter (\<lambda>c. \<not> hash_in_store st (sha256_hex E (c_text c))) cs) \<and>
         count_chunks st' = count_chunks st + n"
proof (cases "filter (\<lambda>c. \<not> hash_in_store st (sha256_hex E (c_text c))) cs = []")
  case True
  with assms show ?thesis
    by (auto simp: ingest_def Let_def split: if_splits)
next
  case False
  let ?new = "filter (\<lambda>c. \<not> hash_in_store st (sha256_hex E (c_text c))) cs"
  from False have ne: "cs \<noteq> []" by auto
  show ?thesis
  proof (cases "embed E (map c_text ?new)")
    case None
    with assms False ne show ?thesis by (simp add: ingest_def Let_def)
  next
    case (Some embeddings)
    let ?made = "if no_vecDimensions st \<and> embeddings \<noteq> []
                 then ensureVecTable st (length (hd embeddings)) else Some st"
    show ?thesis
    proof (cases ?made)
      case None
      with assms False ne Some show ?thesis by (simp add: ingest_def Let_def)
    next
      case made: (Some st1)
      then have st1: "chunks st1 = chunks st"
        by (auto simp: ensureVecTable_chunks split: if_splits)
      show ?thesis
      proof (cases "insert_all E embeddings 0 ?new st1")
        case None
        with assms False ne Some made show ?thesis by (simp add: ingest_def Let_def)
      next
        case ins: (Some st2)
        with assms False ne Some made have n: "n = length ?new"
          and st': "st' = lance_dual_write E st2 (lance_records E embeddings ?new)"
          by (simp_all add: ingest_def Let_def)
        from insert_all_count[OF ins] st1 n st' show ?thesis
          by (simp add: count_chunks_def lance_dual_write_chunks)
      qed
    qed
  qed
qed

lemma ingest_failure_keeps_chunks:
  assumes "ingest E st cs = (Inl e, st')"
  shows "chunks st' = chunks st"
  using assms
  by (auto simp: ingest_def Let_def dest: ensureVecTable_chunks split: option.splits if_splits)

lemma ingest_distinct_batch:
  assumes "ingest E st cs = (Inr n, st')" and "distinct (map (\<lambda>c. sha256_hex E (c_text c)) cs)"
  shows "count_chunks st' = count_chunks st +
           card {h \<in> (\<lambda>c. sha256_hex E (c_text c)) ` set cs. \<not> hash_in_store st h}"
proof -
  let ?g = "\<lambda>c. sha256_hex E (c_text c)"
  let ?P = "\<lambda>h. \<not> hash_in_store st h"
  have a: "length (filter (\<lambda>c. ?P (?g c)) cs) = length (filter ?P (map ?g cs))"
    by (simp add: filter_map comp_def)
  have "distinct (filter ?P (map ?g cs))"
    using assms(2) by (rule distinct_filter)
  then have b: "length (filter ?P (map ?g cs)) = card (set (filter ?P (map ?g cs)))"
    by (rule distinct_card[symmetric])
  have c: "set (filter ?P (map ?g cs)) = {h \<in> ?g ` set cs. ?P h}"
    by auto
  from ingest_count[OF assms(1)]
  have "count_chunks st' = count_chunks st + length (filter (\<lambda>c. ?P (?g c)) cs)"
    by simp
  then show ?thesis by (simp only: a b c)
qed

text \<open>
  Claim C1. After \<open>ingest\<close> the chunk count is the prior count plus the number of distinct
  texts (by hash) of the batch that the store did not hold; the same text twice in one
  call adds exactly one row, and no two rows share a text hash. The code does not do
  this: the filter looks each hash up in the store as it was before the call, so both
  copies pass, and both are inserted. \<open>ingest_count\<close> above is what the code does, and
  \<open>ingest_distinct_batch\<close> is the claim for batches without repeated texts.
\<close>

theorem ingest_same_text_twice:
  "fst (ingest demo_env empty_store [demo_chunk, demo_chunk]) = Inr 2 \<and>
   count_chunks (snd (ingest demo_env empty_store [demo_chunk, demo_chunk]))
     = count_chunks empty_store + 2 \<and>
   map row_text_hash (chunks (snd (ingest demo_env empty_store [demo_chunk, demo_chunk])))
     = [sha256_hex demo_env ''ship policy'', sha256_hex demo_env ''ship policy'']"
  by (simp add: ingest_def hash_in_store_def empty_store_def demo_chunk_def
      embed_def demo_env_def no_vecDimensions_def ensureVecTable_def insertChunk_def
      next_chunk_id_def insertVec_def lance_dual_write_def lance_records_def
      count_chunks_def Let_def)

section \<open>Properties of the memories\<close>

lemma searchVec_ignores_memories:
  "searchVec E (st\<lparr>memories := m\<rparr>) v l f = searchVec E st v l f"
  by (simp add: searchVec_def no_vecDimensions_def Let_def split: option.splits prod.splits)

lemma searchFTS_ignores_memories:
  "searchFTS E (st\<lparr>memories := m\<rparr>) q l f = searchFTS E st q l f"
  by (simp add: searchFTS_def Let_def split: option.splits)

lemma searchLanceFallback_ignores_memories:
  "searchLanceFallback E (st\<lparr>memories := m\<rparr>) q l f = searchLanceFallback E st q l f"
  by (simp add: searchLanceFallback_def Let_def split: option.splits)

lemma uses_fallback_ignores_memories:
  "uses_fallback E (st\<lparr>memories := m\<rparr>) = uses_fallback E st"
  by (simp add: uses_fallback_def)

lemma search_ignores_memories: "search E (st\<lparr>memories := m\<rparr>) q l f = search E st q l f"
  by (simp add: search_def searchVec_ignores_memories searchFTS_ignores_memories
      searchLanceFallback_ignores_memories uses_fallback_ignores_memories Let_def
      split: option.splits)

lemma forget_state:
  "snd (forget E st i) = st \<or> (\<exists>m. snd (forget E st i) = st\<lparr>memories := m\<rparr>)"
  by (auto simp: forget_def Let_def split: option.splits)

text \<open>
  Claim C6. \<open>forget(id)\<close> returns true if and only if a memory row with that id exists with
  status \<open>active\<close>; then the row's status becomes \<open>deprecated\<close> and its \<open>updated_at\<close> is the
  time of the call; no memory row and no chunk is deleted or changed otherwise, so every
  search answers as before; and a second \<open>forget\<close> of the same id returns false.
\<close>

theorem forget_deprecates_once:
  "(fst (forget E st i) \<longleftrightarrow> (\<exists>m. memories st i = Some m \<and> m_status m = Active)) \<and>
   (fst (forget E st i) \<longrightarrow>
      (\<exists>m. memories st i = Some m \<and>
           memories (snd (forget E st i)) i
             = Some (m\<lparr>m_status := Deprecated, m_updated_at := now_iso E\<rparr>))) \<and>
   dom (memories (snd (forget E st i))) = dom (memories st) \<and>
   (\<forall>j. j \<noteq> i \<longrightarrow> memories (snd (forget E st i)) j = memories st j) \<and>
   chunks (snd (forget E st i)) = chunks st \<and>
   search E' (snd (forget E st i)) q l f = search E' st q l f \<and>
   \<not> fst (forget E' (snd (forget E st i)) i)"
proof -
  have 1: "fst (forget E st i) \<longleftrightarrow> (\<exists>m. memories st i = Some m \<and> m_status m = Active)"
    by (auto simp: forget_def Let_def split: option.splits)
  have 2: "fst (forget E st i) \<longrightarrow>
      (\<exists>m. memories st i = Some m \<and>
           memories (snd (forget E st i)) i
             = Some (m\<lparr>m_status := Deprecated, m_updated_at := now_iso E\<rparr>))"
    by (auto simp: forget_def Let_def split: option.splits)
  have 3: "dom (memories (snd (forget E st i))) = dom (memories st)"
    by (auto simp: forget_def Let_def split: option.splits if_splits)
  have 4: "\<forall>j. j \<noteq> i \<longrightarrow> memories (snd (forget E st i)) j = memories st j"
    by (auto simp: forget_def Let_def split: option.splits)
  have 5: "chunks (snd (forget E st i)) = chunks st"
    by (auto simp: forget_def Let_def split: option.splits)
  have 6: "search E' (snd (forget E st i)) q l f = search E' st q l f"
    using forget_state[of E st i] by (auto simp: search_ignores_memories)
  have 7: "\<not> fst (forget E' (snd (forget E st i)) i)"
    by (auto simp: forget_def Let_def split: option.splits)
  from 1 2 3 4 5 6 7 show ?thesis by blast
qed

theorem forget_deprecates_once_witness:
  "fst (forget demo_env one_memory_store 1) \<and>
   map_option m_status (memories (snd (forget demo_env one_memory_store 1)) 1) = Some Deprecated \<and>
   map_option m_updated_at (memories (snd (forget demo_env one_memory_store 1)) 1)
     = Some ''2026-02-16T00:00:00.000Z'' \<and>
   map_option m_status (memories (snd (forget demo_env one_memory_store 2)) 1) = Some Active \<and>
   \<not> fst (forget demo_env (snd (forget demo_env one_memory_store 1)) 1)"
proof -
  have a: "\<exists>m. memories one_memory_store 1 = Some m \<and> m_status m = Active"
    by (simp add: one_memory_store_def)
  have n: "now_iso demo_env = ''2026-02-16T00:00:00.000Z''"
    by (simp add: demo_env_def)
  have o: "map_option m_status (memories one_memory_store 1) = Some Active"
    by (simp add: one_memory_store_def)
  from forget_deprecates_once[of demo_env one_memory_store 1 demo_env "''policy''" 5 None] a n
  have 1: "fst (forget demo_env one_memory_store 1)"
    and 2: "map_option m_status (memories (snd (forget demo_env one_memory_store 1)) 1) = Some Deprecated"
    and 3: "map_option m_updated_at (memories (snd (forget demo_env one_memory_store 1)) 1)
              = Some ''2026-02-16T00:00:00.000Z''"
    and 4: "\<not> fst (forget demo_env (snd (forget demo_env one_memory_store 1)) 1)"
    by auto
  from forget_deprecates_once[of demo_env one_memory_store 2 demo_env "''policy''" 5 None] o
  have 5: "map_option m_status (memories (snd (forget demo_env one_memory_store 2)) 1) = Some Active"
    by simp
  from 1 2 3 4 5 show ?thesis by blast
qed

text \<open>
  A memory that \<open>remember\<close> has stored can be forgotten, and a chunk with the hash of its
  text (its mirror chunk, or an older chunk with the same text) is in the store before
  and after.
\<close>

lemma insertVec_memories: "insertVec st i v = Some st' \<Longrightarrow> memories st' = memories st"
  by (auto simp: insertVec_def split: option.splits prod.splits if_splits)

lemma insert_all_memories:
  "insert_all E embeddings i cs st = Some st' \<Longrightarrow> memories st' = memories st"
proof (induction cs arbitrary: i st)
  case Nil
  then show ?case by simp
next
  case (Cons c cs)
  obtain chunkId st1 where ic: "insertChunk E st c = (chunkId, st1)" by force
  then have m1: "memories st1 = memories st" by (auto simp: insertChunk_def Let_def)
  from Cons.prems ic obtain st2 where
    iv: "insertVec st1 chunkId (if i < length embeddings then embeddings ! i else []) = Some st2"
    and rest: "insert_all E embeddings (Suc i) cs st2 = Some st'"
    by (auto simp: Let_def split: option.splits)
  from Cons.IH[OF rest] insertVec_memories[OF iv] m1 show ?case by simp
qed

lemma ingest_memories: "memories (snd (ingest E st cs)) = memories st"
proof -
  have e: "ensureVecTable st d = Some st1 \<Longrightarrow> memories st1 = memories st" for d st1
    by (auto simp: ensureVecTable_def split: option.splits if_splits)
  have l: "memories (lance_dual_write E s rs) = memories s" for s rs
    by (simp add: lance_dual_write_def split: option.splits)
  show ?thesis
    by (auto simp: ingest_def Let_def l dest!: insert_all_memories e split: option.splits if_splits)
qed

lemma insert_all_keeps_rows:
  "insert_all E embeddings i cs st = Some st' \<Longrightarrow> set (chunks st) \<subseteq> set (chunks st')"
proof (induction cs arbitrary: i st)
  case Nil
  then show ?case by simp
next
  case (Cons c cs)
  obtain chunkId st1 where ic: "insertChunk E st c = (chunkId, st1)" by force
  then have c1: "set (chunks st) \<subseteq> set (chunks st1)" by (auto simp: insertChunk_def Let_def)
  from Cons.prems ic obtain st2 where
    iv: "insertVec st1 chunkId (if i < length embeddings then embeddings ! i else []) = Some st2"
    and rest: "insert_all E embeddings (Suc i) cs st2 = Some st'"
    by (auto simp: Let_def split: option.splits)
  from Cons.IH[OF rest] insertVec_chunks[OF iv] c1 show ?case by simp
qed

lemma insert_all_first_hash:
  assumes "insert_all E embeddings i (c # cs) st = Some st'"
  shows "hash_in_store st' (sha256_hex E (c_text c))"
proof -
  obtain chunkId st1 where ic: "insertChunk E st c = (chunkId, st1)" by force
  then have h: "hash_in_store st1 (sha256_hex E (c_text c))"
    by (auto simp: insertChunk_def Let_def hash_in_store_def)
  from assms ic obtain st2 where
    iv: "insertVec st1 chunkId (if i < length embeddings then embeddings ! i else []) = Some st2"
    and rest: "insert_all E embeddings (Suc i) cs st2 = Some st'"
    by (auto simp: Let_def split: option.splits)
  from insert_all_keeps_rows[OF rest] insertVec_chunks[OF iv] h show ?thesis
    by (auto simp: hash_in_store_def)
qed

lemma ingest_single_present:
  assumes "ingest E st [c] = (Inr n, st')"
  shows "hash_in_store st' (sha256_hex E (c_text c))"
proof (cases "hash_in_store st (sha256_hex E (c_text c))")
  case True
  with assms show ?thesis by (simp add: ingest_def)
next
  case False
  with assms obtain embeddings st1 st2 where
    ins: "insert_all E embeddings 0 [c] st1 = Some st2"
    and st': "st' = lance_dual_write E st2 (lance_records E embeddings [c])"
    by (auto simp: ingest_def Let_def split: option.splits)
  from insert_all_first_hash[OF ins] st' show ?thesis
    by (simp add: hash_in_store_def lance_dual_write_chunks)
qed

lemma remember_then_forget:
  assumes "remember E st txt cat = (Inr i, st')"
  shows "fst (forget E' st' i) \<and> hash_in_store st' (sha256_hex E txt) \<and>
         hash_in_store (snd (forget E' st' i)) (sha256_hex E txt)"
proof -
  let ?i = "memories_seq st + 1"
  let ?row = "\<lparr>m_text = txt, m_category = cat, m_confidence = 1.0, m_source_ids = ''[]'',
               m_status = Active, m_created_at = now_iso E, m_updated_at = now_iso E\<rparr>"
  let ?st1 = "st\<lparr>memories := (memories st)(?i \<mapsto> ?row), memories_seq := ?i\<rparr>"
  let ?c = "\<lparr>c_text = txt, c_role = System, c_source_type = ''manual'',
              c_source_id = ''memory:'' @ show_id ?i, c_agent_id = ''system'',
              c_token_count = (int (length txt) + 3) div 4, c_created_at = now_iso E\<rparr>"
  obtain res st2 where ing: "ingest E ?st1 [?c] = (res, st2)" by force
  with assms obtain n where res: "res = Inr n" and i: "i = ?i" and st': "st' = st2"
    by (auto simp: remember_def Let_def split: sum.splits)
  from ingest_memories[of E ?st1 "[?c]"] ing st' have "memories st' = memories ?st1" by simp
  then have m: "memories st' i = Some ?row" using i by simp
  from ingest_single_present[of E ?st1 ?c n st2] ing res st'
  have h: "hash_in_store st' (sha256_hex E txt)" by simp
  from m have f: "fst (forget E' st' i)" by (simp add: forget_def)
  have "chunks (snd (forget E' st' i)) = chunks st'"
    by (auto simp: forget_def Let_def split: option.splits)
  with h f show ?thesis by (simp add: hash_in_store_def)
qed

section \<open>Properties of the dead drop\<close>

lemma handleDrop_other_key:
  "k' \<noteq> blob_key channel uuid \<Longrightarrow>
   map_of (snd (handleDrop b agentId channel payload uuid now)) k' = map_of b k'"
  by (simp add: handleDrop_def update_conv')

lemma handleDrop_not_drawn:
  "\<not> draws_uuid channel payload \<Longrightarrow> snd (handleDrop b agentId channel payload uuid now) = b"
  by (auto simp: handleDrop_def draws_uuid_def)

lemma handleConfirm_other_key:
  "k' \<noteq> blob_key channel i \<Longrightarrow> map_of (snd (handleConfirm b channel i)) k' = map_of b k'"
  by (simp add: handleConfirm_def delete_conv' split: option.splits)

lemma handleConfirm_invalid:
  "\<not> isValidChannel channel \<Longrightarrow> snd (handleConfirm b channel i) = b"
  by (simp add: handleConfirm_def)

lemma handleConfirm_absent:
  "map_of b k = None \<Longrightarrow> map_of (snd (handleConfirm b channel i)) k = None"
  by (simp add: handleConfirm_def delete_conv' split: option.splits)

text \<open>Two valid channels and two ids give the same key only when they are the same.\<close>

lemma blob_key_inj:
  assumes "isValidChannel channel" and "isValidChannel channel'"
    and "blob_key channel' j = blob_key channel i"
  shows "channel' = channel \<and> j = i"
  using assms by (auto simp: isValidChannel_def VALID_CHANNELS_def blob_key_def)

text \<open>The sweep lists without asking for the custom metadata, finds no \<open>dropped_at\<close>,
  and deletes nothing.\<close>

lemma fold_unchanged:
  "(\<And>x s. x \<in> set xs \<Longrightarrow> f x s = s) \<Longrightarrow> fold f xs s = s"
  by (induction xs arbitrary: s) simp_all

lemma r2_list_no_metadata:
  "obj \<in> set (r2_list b prefix []) \<Longrightarrow> lo_dropped_at obj = None \<and> lo_agent_id obj = None"
  by (auto simp: r2_list_def)

lemma sweep_channel_deletes_nothing: "sweep_channel getTime cutoff channel b = b"
  unfolding sweep_channel_def
  by (rule fold_unchanged) (simp add: sweep_object_def r2_list_no_metadata)

lemma scheduled_deletes_nothing: "scheduled getTime now b = b"
  unfolding scheduled_def
  by (rule fold_unchanged) (simp add: sweep_channel_deletes_nothing)

text \<open>A stored blob whose id was drawn stays stored, and its id stays drawn, across
  every event that is not its confirm.\<close>

lemma blob_stays:
  assumes v: "isValidChannel channel"
    and i: "i \<in> set (issued w)"
    and m: "map_of (objects w) (blob_key channel i) = Some obj"
    and f: "fresh_draw w e"
    and c: "e \<noteq> Confirm channel i"
  shows "map_of (objects (after_event getTime w e)) (blob_key channel i) = Some obj \<and>
         i \<in> set (issued (after_event getTime w e))"
proof (cases e)
  case (Drop agentId channel' payload uuid now)
  show ?thesis
  proof (cases "draws_uuid channel' payload")
    case True
    with f Drop i have "uuid \<noteq> i" by auto
    moreover from True have "isValidChannel channel'" by (simp add: draws_uuid_def)
    ultimately have "blob_key channel i \<noteq> blob_key channel' uuid"
      using blob_key_inj[OF v, of channel' uuid i] by auto
    with Drop m i show ?thesis by (simp add: handleDrop_other_key)
  next
    case False
    with Drop m i show ?thesis by (simp add: handleDrop_not_drawn)
  qed
next
  case (Confirm channel' j)
  show ?thesis
  proof (cases "isValidChannel channel'")
    case True
    with c Confirm have "blob_key channel i \<noteq> blob_key channel' j"
      using blob_key_inj[OF v True, of j i] by auto
    with Confirm m i show ?thesis by (simp add: handleConfirm_other_key)
  next
    case False
    with Confirm m i show ?thesis by (simp add: handleConfirm_invalid)
  qed
next
  case (Sweep now)
  with m i show ?thesis by (simp add: scheduled_deletes_nothing)
qed (use m i in simp_all)

lemma blobs_stay:
  "isValidChannel channel \<Longrightarrow> i \<in> set (issued w) \<Longrightarrow>
   map_of (objects w) (blob_key channel i) = Some obj \<Longrightarrow>
   draws_fresh getTime w es \<Longrightarrow> \<forall>e \<in> set es. e \<noteq> Confirm channel i \<Longrightarrow>
   map_of (objects (after_events getTime w es)) (blob_key channel i) = Some obj \<and>
   i \<in> set (issued (after_events getTime w es))"
  unfolding after_events_def
proof (induction es arbitrary: w)
  case Nil
  then show ?case by simp
next
  case (Cons e es)
  from Cons.prems have "map_of (objects (after_event getTime w e)) (blob_key channel i) = Some obj \<and>
                        i \<in> set (issued (after_event getTime w e))"
    by (intro blob_stays) simp_all
  with Cons.prems Cons.IH[of "after_event getTime w e"] show ?case by simp
qed

text \<open>A blob that is not stored and whose id was drawn stays absent, whatever comes.\<close>

lemma blob_stays_absent:
  assumes v: "isValidChannel channel"
    and i: "i \<in> set (issued w)"
    and m: "map_of (objects w) (blob_key channel i) = None"
    and f: "fresh_draw w e"
  shows "map_of (objects (after_event getTime w e)) (blob_key channel i) = None \<and>
         i \<in> set (issued (after_event getTime w e))"
proof (cases e)
  case (Drop agentId channel' payload uuid now)
  show ?thesis
  proof (cases "draws_uuid channel' payload")
    case True
    with f Drop i have "uuid \<noteq> i" by auto
    moreover from True have "isValidChannel channel'" by (simp add: draws_uuid_def)
    ultimately have "blob_key channel i \<noteq> blob_key channel' uuid"
      using blob_key_inj[OF v, of channel' uuid i] by auto
    with Drop m i show ?thesis by (simp add: handleDrop_other_key)
  next
    case False
    with Drop m i show ?thesis by (simp add: handleDrop_not_drawn)
  qed
next
  case (Confirm channel' j)
  with m i show ?thesis by (simp add: handleConfirm_absent)
next
  case (Sweep now)
  with m i show ?thesis by (simp add: scheduled_deletes_nothing)
qed (use m i in simp_all)

lemma blobs_stay_absent:
  "isValidChannel channel \<Longrightarrow> i \<in> set (issued w) \<Longrightarrow>
   map_of (objects w) (blob_key channel i) = None \<Longrightarrow> draws_fresh getTime w es \<Longrightarrow>
   map_of (objects (after_events getTime w es)) (blob_key channel i) = None"
  unfolding after_events_def
proof (induction es arbitrary: w)
  case Nil
  then show ?case by simp
next
  case (Cons e es)
  from Cons.prems have "map_of (objects (after_event getTime w e)) (blob_key channel i) = None \<and>
                        i \<in> set (issued (after_event getTime w e))"
    by (intro blob_stays_absent) simp_all
  with Cons.prems Cons.IH[of "after_event getTime w e"] show ?case by simp
qed

lemma draws_fresh_append:
  "draws_fresh getTime w (xs @ ys) =
     (draws_fresh getTime w xs \<and> draws_fresh getTime (after_events getTime w xs) ys)"
  unfolding after_events_def
  by (induction xs arbitrary: w) simp_all

lemma after_events_append:
  "after_events getTime w (xs @ ys) = after_events getTime (after_events getTime w xs) ys"
  by (simp add: after_events_def)

lemma draws_fresh_take:
  "draws_fresh getTime w es \<Longrightarrow> draws_fresh getTime w (take n es)"
  using draws_fresh_append[of getTime w "take n es" "drop n es"] by simp

text \<open>The state right after an accepted drop, and right after the confirm of a stored
  blob.\<close>

lemma after_drop:
  assumes "isValidChannel channel" and "payload \<noteq> []" and "length payload \<le> 100 * 1024 * 1024"
  shows "map_of (objects (after_event getTime w (Drop agentId channel payload i now))) (blob_key channel i)
           = Some \<lparr>o_body = payload, o_uploaded = now, o_agent_id = Some agentId,
                   o_dropped_at = Some now, o_size = Some (length payload)\<rparr> \<and>
         i \<in> set (issued (after_event getTime w (Drop agentId channel payload i now)))"
  using assms by (simp add: handleDrop_def draws_uuid_def update_conv')

lemma after_confirm:
  assumes "isValidChannel channel" and "map_of b (blob_key channel i) = Some obj"
  shows "fst (handleConfirm b channel i) = ConfirmOk (blob_key channel i) \<and>
         map_of (snd (handleConfirm b channel i)) (blob_key channel i) = None"
  using assms by (simp add: handleConfirm_def delete_conv')

text \<open>
  Claim C7. For every blob id on a valid channel: after the drop that stored the blob
  under the id, every fetch before the confirm returns the bytes that were dropped,
  however many fetches, listings, sweeps, and drops and confirms of other blobs came
  before it; the confirm succeeds; and every fetch after the confirm returns 404,
  whatever came between. (\<open>es1\<close> are the events between the drop and the confirm,
  \<open>es2\<close> those after the confirm; a fetch is answered from the state reached after
  any number \<open>n\<close> of them.)
\<close>

theorem dead_drop_fetch_then_confirm:
  assumes "isValidChannel channel"
    and "payload \<noteq> []" and "length payload \<le> 100 * 1024 * 1024"
    and "draws_fresh getTime w (Drop agentId channel payload i now # es1 @ Confirm channel i # es2)"
    and "\<forall>e \<in> set es1. e \<noteq> Confirm channel i"
  shows "(\<forall>n. \<exists>agent t.
            handlePickup (objects (after_events getTime w (Drop agentId channel payload i now # take n es1)))
              channel i = BlobBody payload agent t) \<and>
         fst (handleConfirm (objects (after_events getTime w (Drop agentId channel payload i now # es1)))
                channel i) = ConfirmOk (blob_key channel i) \<and>
         (\<forall>n. status_code
            (handlePickup
               (objects (after_events getTime w
                  (Drop agentId channel payload i now # es1 @ Confirm channel i # take n es2)))
               channel i) = 404)"
proof -
  let ?d = "Drop agentId channel payload i now"
  let ?obj = "\<lparr>o_body = payload, o_uploaded = now, o_agent_id = Some agentId,
               o_dropped_at = Some now, o_size = Some (length payload)\<rparr>"
  let ?w1 = "after_event getTime w ?d"
  let ?w2 = "after_events getTime ?w1 es1"
  let ?w3 = "after_event getTime ?w2 (Confirm channel i)"
  have w1: "map_of (objects ?w1) (blob_key channel i) = Some ?obj \<and> i \<in> set (issued ?w1)"
    using assms(1-3) by (rule after_drop)
  from assms(4) have f1: "draws_fresh getTime ?w1 (es1 @ Confirm channel i # es2)" by simp
  then have f2: "draws_fresh getTime ?w1 es1"
    and f3: "draws_fresh getTime ?w3 es2"
    by (simp_all add: draws_fresh_append)
  have stored: "map_of (objects (after_events getTime ?w1 (take n es1))) (blob_key channel i) = Some ?obj"
    for n
  proof -
    have "\<forall>e \<in> set (take n es1). e \<noteq> Confirm channel i"
      using assms(5) by (meson in_set_takeD)
    with blobs_stay[OF assms(1) _ _ draws_fresh_take[OF f2, of n]] w1 show ?thesis by blast
  qed
  have w2: "map_of (objects ?w2) (blob_key channel i) = Some ?obj \<and> i \<in> set (issued ?w2)"
    using blobs_stay[OF assms(1) _ _ f2 assms(5)] w1 by blast
  have c: "fst (handleConfirm (objects ?w2) channel i) = ConfirmOk (blob_key channel i) \<and>
           map_of (snd (handleConfirm (objects ?w2) channel i)) (blob_key channel i) = None"
    using after_confirm[OF assms(1) conjunct1[OF w2]] .
  then have w3: "map_of (objects ?w3) (blob_key channel i) = None \<and> i \<in> set (issued ?w3)"
    using w2 by simp
  have gone: "map_of (objects (after_events getTime ?w3 (take n es2))) (blob_key channel i) = None"
    for n
    using blobs_stay_absent[OF assms(1) _ _ draws_fresh_take[OF f3, of n]] w3 by blast
  have e1: "after_events getTime w (?d # xs) = after_events getTime ?w1 xs" for xs
    by (simp add: after_events_def)
  have e3: "after_events getTime w (?d # es1 @ Confirm channel i # xs) = after_events getTime ?w3 xs"
    for xs
    by (simp add: after_events_def)
  show ?thesis
  proof (intro conjI allI)
    fix n
    show "\<exists>agent t. handlePickup (objects (after_events getTime w (?d # take n es1))) channel i
                      = BlobBody payload agent t"
      using assms(1) stored[of n] by (simp add: e1 handlePickup_def)
  next
    show "fst (handleConfirm (objects (after_events getTime w (?d # es1))) channel i)
            = ConfirmOk (blob_key channel i)"
      using c by (simp add: e1)
  next
    fix n
    show "status_code (handlePickup (objects (after_events getTime w
              (?d # es1 @ Confirm channel i # take n es2))) channel i) = 404"
      using assms(1) gone[of n] by (simp only: e3) (simp add: handlePickup_def)
  qed
qed

lemma conversations_valid: "isValidChannel ''conversations''"
  by (simp add: isValidChannel_def VALID_CHANNELS_def)

lemma draws_conversations:
  "draws_uuid ''conversations'' payload = (payload \<noteq> [] \<and> length payload \<le> 104857600)"
  by (auto simp: draws_uuid_def conversations_valid)

text \<open>The listing after one drop: one blob, with the upload time and no agent, the
  listing carrying no custom metadata.\<close>

lemma listing_after_drop:
  "handlePickupList
     (objects (after_event epoch_clock new_relay
        (Drop ''cc-air'' ''conversations'' ''0123456789'' ''X'' ''1970-01-01T00:00:00.000Z'')))
     ''conversations''
   = ListOk ''conversations'' [(''X'', 10, ''1970-01-01T00:00:00.000Z'', ''unknown'')]"
  by (simp add: handlePickupList_def conversations_valid new_relay_def handleDrop_def r2_list_def
      blob_key_def second_segment_def or_else_def)

text \<open>A run of the claim: ten bytes dropped as \<open>X\<close>; two fetches, a listing and a sweep
  25 hours later come before the confirm; a fetch, a sweep and the drop of another blob
  come after it.\<close>

theorem dead_drop_fetch_then_confirm_witness:
  "isValidChannel ''conversations'' \<and> ''0123456789'' \<noteq> [] \<and>
   length ''0123456789'' \<le> 100 * 1024 * 1024 \<and>
   draws_fresh epoch_clock new_relay
     (Drop ''cc-air'' ''conversations'' ''0123456789'' ''X'' ''1970-01-01T00:00:00.000Z'' #
      [Pickup ''conversations'' ''X'', PickupList ''conversations'', Sweep 90000000,
       Pickup ''conversations'' ''X''] @
      Confirm ''conversations'' ''X'' #
      [Pickup ''conversations'' ''X'', Sweep 90000000,
       Drop ''cc-air'' ''conversations'' ''abc'' ''Y'' ''1970-01-01T00:00:01.000Z'']) \<and>
   Confirm ''conversations'' ''X'' \<notin>
     set [Pickup ''conversations'' ''X'', PickupList ''conversations'', Sweep 90000000,
          Pickup ''conversations'' ''X''] \<and>
   (\<forall>n. \<exists>agent t.
      handlePickup (objects (after_events epoch_clock new_relay
          (Drop ''cc-air'' ''conversations'' ''0123456789'' ''X'' ''1970-01-01T00:00:00.000Z'' #
           take n [Pickup ''conversations'' ''X'', PickupList ''conversations'', Sweep 90000000,
                   Pickup ''conversations'' ''X''])))
        ''conversations'' ''X'' = BlobBody ''0123456789'' agent t) \<and>
   (\<forall>n. status_code
      (handlePickup (objects (after_events epoch_clock new_relay
          (Drop ''cc-air'' ''conversations'' ''0123456789'' ''X'' ''1970-01-01T00:00:00.000Z'' #
           [Pickup ''conversations'' ''X'', PickupList ''conversations'', Sweep 90000000,
            Pickup ''conversations'' ''X''] @
           Confirm ''conversations'' ''X'' #
           take n [Pickup ''conversations'' ''X'', Sweep 90000000,
                   Drop ''cc-air'' ''conversations'' ''abc'' ''Y'' ''1970-01-01T00:00:01.000Z''])))
        ''conversations'' ''X'') = 404)"
proof -
  have f: "draws_fresh epoch_clock new_relay
     (Drop ''cc-air'' ''conversations'' ''0123456789'' ''X'' ''1970-01-01T00:00:00.000Z'' #
      [Pickup ''conversations'' ''X'', PickupList ''conversations'', Sweep 90000000,
       Pickup ''conversations'' ''X''] @
      Confirm ''conversations'' ''X'' #
      [Pickup ''conversations'' ''X'', Sweep 90000000,
       Drop ''cc-air'' ''conversations'' ''abc'' ''Y'' ''1970-01-01T00:00:01.000Z''])"
    by (simp add: new_relay_def draws_conversations)
  have c: "\<forall>e \<in> set [Pickup ''conversations'' ''X'', PickupList ''conversations'', Sweep 90000000,
                Pickup ''conversations'' ''X'']. e \<noteq> Confirm ''conversations'' ''X''"
    by simp
  have p: "''0123456789'' \<noteq> []" and l: "length ''0123456789'' \<le> 100 * 1024 * 1024"
    by simp_all
  from dead_drop_fetch_then_confirm[OF conversations_valid p l f c] f c conversations_valid
  show ?thesis by simp
qed

section \<open>Properties of the sealed payloads\<close>

text \<open>
  What \<open>decrypt\<close> decides: a version other than 1 is rejected; the HMAC is recomputed
  over the bytes that the nonce, ciphertext and tag fields decode to, and a payload whose
  \<open>hmac\<close> is not the recomputed one is rejected whatever the decipher would do.
\<close>

lemma decrypt_rejects_version:
  "p_v payload \<noteq> 1 \<Longrightarrow> decrypt C payload masterKey = Inl (UnknownVersion (p_v payload))"
  by (simp add: decrypt_def)

lemma decrypt_hmac_before_decipher:
  "p_v payload = 1 \<Longrightarrow> p_hmac payload \<noteq> expectedHmac C payload masterKey \<Longrightarrow>
   decrypt (C\<lparr>aes_gcm_decrypt := any_decipher\<rparr>) payload masterKey = Inl HmacFailed"
  by (simp add: decrypt_def expectedHmac_def deriveSigningKey_def)

lemma decrypt_rejects_other_hmac:
  "p_v payload = 1 \<Longrightarrow> p_hmac payload \<noteq> expectedHmac C payload masterKey \<Longrightarrow>
   decrypt C payload masterKey = Inl HmacFailed"
  by (simp add: decrypt_def)

text \<open>What was sealed carries version 1 and the HMAC that \<open>decrypt\<close> recomputes, when
  base64 decodes what it encoded.\<close>

lemma sealed_fields:
  assumes "base64_decode C (base64_encode C nonce) = nonce"
    and "base64_decode C (base64_encode C (fst (aes_gcm_encrypt C masterKey nonce plaintext)))
           = fst (aes_gcm_encrypt C masterKey nonce plaintext)"
    and "base64_decode C (base64_encode C (snd (aes_gcm_encrypt C masterKey nonce plaintext)))
           = snd (aes_gcm_encrypt C masterKey nonce plaintext)"
  shows "p_v (encrypt C nonce plaintext masterKey) = 1"
    and "p_hmac (encrypt C nonce plaintext masterKey)
           = expectedHmac C (encrypt C nonce plaintext masterKey) masterKey"
  using assms by (auto simp: encrypt_def expectedHmac_def Let_def split: prod.splits)

lemma decrypt_encrypt_roundtrip:
  assumes "base64_decode C (base64_encode C nonce) = nonce"
    and "base64_decode C (base64_encode C (fst (aes_gcm_encrypt C masterKey nonce plaintext)))
           = fst (aes_gcm_encrypt C masterKey nonce plaintext)"
    and "base64_decode C (base64_encode C (snd (aes_gcm_encrypt C masterKey nonce plaintext)))
           = snd (aes_gcm_encrypt C masterKey nonce plaintext)"
    and "aes_gcm_decrypt C masterKey nonce (fst (aes_gcm_encrypt C masterKey nonce plaintext))
           (snd (aes_gcm_encrypt C masterKey nonce plaintext)) = Some plaintext"
  shows "decrypt C (encrypt C nonce plaintext masterKey) masterKey = Inr plaintext"
  using assms
  by (auto simp: decrypt_def encrypt_def expectedHmac_def Let_def split: prod.splits)

text \<open>\<open>decrypt\<close> reads the nonce, ciphertext and tag fields through their decoding alone.\<close>

lemma decrypt_reads_decoded:
  "base64_decode C s = base64_decode C (p_nonce payload) \<Longrightarrow>
     decrypt C (payload\<lparr>p_nonce := s\<rparr>) masterKey = decrypt C payload masterKey"
  "base64_decode C s = base64_decode C (p_ciphertext payload) \<Longrightarrow>
     decrypt C (payload\<lparr>p_ciphertext := s\<rparr>) masterKey = decrypt C payload masterKey"
  "base64_decode C s = base64_decode C (p_tag payload) \<Longrightarrow>
     decrypt C (payload\<lparr>p_tag := s\<rparr>) masterKey = decrypt C payload masterKey"
  by (simp_all add: decrypt_def expectedHmac_def)

text \<open>With HKDF and HMAC free of collisions, another key and other decoded bytes in one
  field are rejected.\<close>

lemma sealed_rejects_other_key:
  assumes cf: "collision_free C"
    and b: "base64_decode C (base64_encode C nonce) = nonce"
      "base64_decode C (base64_encode C (fst (aes_gcm_encrypt C masterKey nonce plaintext)))
         = fst (aes_gcm_encrypt C masterKey nonce plaintext)"
      "base64_decode C (base64_encode C (snd (aes_gcm_encrypt C masterKey nonce plaintext)))
         = snd (aes_gcm_encrypt C masterKey nonce plaintext)"
    and k: "k \<noteq> masterKey"
  shows "decrypt C (encrypt C nonce plaintext masterKey) k = Inl HmacFailed"
proof -
  let ?sealed = "encrypt C nonce plaintext masterKey"
  note f = sealed_fields[OF b]
  have "expectedHmac C ?sealed k \<noteq> expectedHmac C ?sealed masterKey"
  proof
    assume "expectedHmac C ?sealed k = expectedHmac C ?sealed masterKey"
    with cf have "deriveSigningKey C k = deriveSigningKey C masterKey"
      unfolding collision_free_def expectedHmac_def by blast
    with cf have "k = masterKey" unfolding collision_free_def by blast
    with k show False by simp
  qed
  with f show ?thesis by (intro decrypt_rejects_other_hmac) simp_all
qed

lemma sealed_rejects_other_bytes:
  assumes cf: "collision_free C"
    and b: "base64_decode C (base64_encode C nonce) = nonce"
      "base64_decode C (base64_encode C (fst (aes_gcm_encrypt C masterKey nonce plaintext)))
         = fst (aes_gcm_encrypt C masterKey nonce plaintext)"
      "base64_decode C (base64_encode C (snd (aes_gcm_encrypt C masterKey nonce plaintext)))
         = snd (aes_gcm_encrypt C masterKey nonce plaintext)"
  shows "base64_decode C s \<noteq> base64_decode C (p_nonce (encrypt C nonce plaintext masterKey)) \<Longrightarrow>
           decrypt C ((encrypt C nonce plaintext masterKey)\<lparr>p_nonce := s\<rparr>) masterKey = Inl HmacFailed"
    and "base64_decode C s \<noteq> base64_decode C (p_ciphertext (encrypt C nonce plaintext masterKey)) \<Longrightarrow>
           decrypt C ((encrypt C nonce plaintext masterKey)\<lparr>p_ciphertext := s\<rparr>) masterKey = Inl HmacFailed"
    and "base64_decode C s \<noteq> base64_decode C (p_tag (encrypt C nonce plaintext masterKey)) \<Longrightarrow>
           decrypt C ((encrypt C nonce plaintext masterKey)\<lparr>p_tag := s\<rparr>) masterKey = Inl HmacFailed"
proof -
  let ?sealed = "encrypt C nonce plaintext masterKey"
  let ?K = "deriveSigningKey C masterKey"
  note f = sealed_fields[OF b]
  have inj: "dat = dat'" if "hmac_sha256_hex C ?K dat = hmac_sha256_hex C ?K dat'" for dat dat'
    using cf that unfolding collision_free_def by blast
  have rej: "decrypt C payload masterKey = Inl HmacFailed"
    if "p_v payload = 1" and "p_hmac payload = p_hmac ?sealed"
      and "base64_decode C (p_nonce payload) @ base64_decode C (p_ciphertext payload)
             @ base64_decode C (p_tag payload)
           \<noteq> base64_decode C (p_nonce ?sealed) @ base64_decode C (p_ciphertext ?sealed)
             @ base64_decode C (p_tag ?sealed)" for payload
  proof -
    have "expectedHmac C payload masterKey \<noteq> expectedHmac C ?sealed masterKey"
      using that(3) inj unfolding expectedHmac_def by blast
    with that(1,2) f show ?thesis by (intro decrypt_rejects_other_hmac) simp_all
  qed
  show "base64_decode C s \<noteq> base64_decode C (p_nonce ?sealed) \<Longrightarrow>
          decrypt C (?sealed\<lparr>p_nonce := s\<rparr>) masterKey = Inl HmacFailed"
    using f(1) by (intro rej) simp_all
  show "base64_decode C s \<noteq> base64_decode C (p_ciphertext ?sealed) \<Longrightarrow>
          decrypt C (?sealed\<lparr>p_ciphertext := s\<rparr>) masterKey = Inl HmacFailed"
    using f(1) by (intro rej) simp_all
  show "base64_decode C s \<noteq> base64_decode C (p_tag ?sealed) \<Longrightarrow>
          decrypt C (?sealed\<lparr>p_tag := s\<rparr>) masterKey = Inl HmacFailed"
    using f(1) by (intro rej) simp_all
qed

text \<open>
  Claim C2, as amended. \<open>decrypt\<close> of what \<open>encrypt\<close> sealed under the same key returns
  the plaintext (base64 decoding what it encoded, and AES-256-GCM opening what it sealed).
  \<open>decrypt\<close> fails, returning an error and no plaintext, for every payload whose version
  is not 1, and for every payload whose \<open>hmac\<close> field is not the HMAC recomputed under
  the given key over the decoded nonce, ciphertext and tag, whatever the decipher would
  do with it: the HMAC is checked first. So it fails for every change of the \<open>hmac\<close>
  field of a sealed payload, and, with HKDF and HMAC free of collisions, for every other
  key and for every change of the nonce, ciphertext or tag field that changes the bytes
  the field decodes to. A change of the text of the nonce, ciphertext or tag field that
  leaves the decoded bytes the same is not noticed: the outcome is that of the unchanged
  payload.
\<close>

theorem sealed_payload_checks:
  assumes "base64_decode C (base64_encode C nonce) = nonce"
    and "base64_decode C (base64_encode C (fst (aes_gcm_encrypt C masterKey nonce plaintext)))
           = fst (aes_gcm_encrypt C masterKey nonce plaintext)"
    and "base64_decode C (base64_encode C (snd (aes_gcm_encrypt C masterKey nonce plaintext)))
           = snd (aes_gcm_encrypt C masterKey nonce plaintext)"
    and "aes_gcm_decrypt C masterKey nonce (fst (aes_gcm_encrypt C masterKey nonce plaintext))
           (snd (aes_gcm_encrypt C masterKey nonce plaintext)) = Some plaintext"
  shows "decrypt C (encrypt C nonce plaintext masterKey) masterKey = Inr plaintext \<and>
    (\<forall>payload k. p_v payload \<noteq> 1 \<longrightarrow>
        decrypt C payload k = Inl (UnknownVersion (p_v payload))) \<and>
    (\<forall>payload k any_decipher.
        p_v payload = 1 \<and> p_hmac payload \<noteq> expectedHmac C payload k \<longrightarrow>
        decrypt (C\<lparr>aes_gcm_decrypt := any_decipher\<rparr>) payload k = Inl HmacFailed) \<and>
    (\<forall>h. h \<noteq> p_hmac (encrypt C nonce plaintext masterKey) \<longrightarrow>
        decrypt C ((encrypt C nonce plaintext masterKey)\<lparr>p_hmac := h\<rparr>) masterKey
          = Inl HmacFailed) \<and>
    (collision_free C \<longrightarrow>
       (\<forall>k. k \<noteq> masterKey \<longrightarrow>
          decrypt C (encrypt C nonce plaintext masterKey) k = Inl HmacFailed) \<and>
       (\<forall>s. base64_decode C s \<noteq> base64_decode C (p_nonce (encrypt C nonce plaintext masterKey)) \<longrightarrow>
          decrypt C ((encrypt C nonce plaintext masterKey)\<lparr>p_nonce := s\<rparr>) masterKey
            = Inl HmacFailed) \<and>
       (\<forall>s. base64_decode C s \<noteq> base64_decode C (p_ciphertext (encrypt C nonce plaintext masterKey)) \<longrightarrow>
          decrypt C ((encrypt C nonce plaintext masterKey)\<lparr>p_ciphertext := s\<rparr>) masterKey
            = Inl HmacFailed) \<and>
       (\<forall>s. base64_decode C s \<noteq> base64_decode C (p_tag (encrypt C nonce plaintext masterKey)) \<longrightarrow>
          decrypt C ((encrypt C nonce plaintext masterKey)\<lparr>p_tag := s\<rparr>) masterKey
            = Inl HmacFailed)) \<and>
    (\<forall>payload k s. base64_decode C s = base64_decode C (p_nonce payload) \<longrightarrow>
        decrypt C (payload\<lparr>p_nonce := s\<rparr>) k = decrypt C payload k) \<and>
    (\<forall>payload k s. base64_decode C s = base64_decode C (p_ciphertext payload) \<longrightarrow>
        decrypt C (payload\<lparr>p_ciphertext := s\<rparr>) k = decrypt C payload k) \<and>
    (\<forall>payload k s. base64_decode C s = base64_decode C (p_tag payload) \<longrightarrow>
        decrypt C (payload\<lparr>p_tag := s\<rparr>) k = decrypt C payload k)"
proof -
  let ?sealed = "encrypt C nonce plaintext masterKey"
  note f = sealed_fields[OF assms(1-3)]
  have 1: "decrypt C ?sealed masterKey = Inr plaintext"
    using assms by (rule decrypt_encrypt_roundtrip)
  have 4: "decrypt C (?sealed\<lparr>p_hmac := h\<rparr>) masterKey = Inl HmacFailed"
    if "h \<noteq> p_hmac ?sealed" for h
  proof -
    have "expectedHmac C (?sealed\<lparr>p_hmac := h\<rparr>) masterKey = expectedHmac C ?sealed masterKey"
      by (simp add: expectedHmac_def)
    with that f show ?thesis
      by (intro decrypt_rejects_other_hmac) simp_all
  qed
  have 5: "decrypt C ?sealed k = Inl HmacFailed" if "collision_free C" and "k \<noteq> masterKey" for k
    using sealed_rejects_other_key[OF that(1) assms(1-3) that(2)] .
  note 6 = sealed_rejects_other_bytes[OF _ assms(1-3)]
  show ?thesis
  proof (intro conjI allI impI)
    show "decrypt C ?sealed masterKey = Inr plaintext" by (rule 1)
  next
    fix payload :: EncryptedPayload and k :: bytes
    assume "p_v payload \<noteq> 1"
    then show "decrypt C payload k = Inl (UnknownVersion (p_v payload))"
      by (rule decrypt_rejects_version)
  next
    fix payload :: EncryptedPayload and k :: bytes
      and any_decipher :: "bytes \<Rightarrow> bytes \<Rightarrow> bytes \<Rightarrow> bytes \<Rightarrow> bytes option"
    assume "p_v payload = 1 \<and> p_hmac payload \<noteq> expectedHmac C payload k"
    then show "decrypt (C\<lparr>aes_gcm_decrypt := any_decipher\<rparr>) payload k = Inl HmacFailed"
      by (simp add: decrypt_hmac_before_decipher)
  next
    fix h
    assume "h \<noteq> p_hmac ?sealed"
    then show "decrypt C (?sealed\<lparr>p_hmac := h\<rparr>) masterKey = Inl HmacFailed" by (rule 4)
  next
    fix k
    assume "collision_free C" and "k \<noteq> masterKey"
    then show "decrypt C ?sealed k = Inl HmacFailed" by (rule 5)
  next
    fix s
    assume "collision_free C" and "base64_decode C s \<noteq> base64_decode C (p_nonce ?sealed)"
    then show "decrypt C (?sealed\<lparr>p_nonce := s\<rparr>) masterKey = Inl HmacFailed" by (rule 6(1))
  next
    fix s
    assume "collision_free C" and "base64_decode C s \<noteq> base64_decode C (p_ciphertext ?sealed)"
    then show "decrypt C (?sealed\<lparr>p_ciphertext := s\<rparr>) masterKey = Inl HmacFailed"
      by (rule 6(2))
  next
    fix s
    assume "collision_free C" and "base64_decode C s \<noteq> base64_decode C (p_tag ?sealed)"
    then show "decrypt C (?sealed\<lparr>p_tag := s\<rparr>) masterKey = Inl HmacFailed" by (rule 6(3))
  next
    fix payload :: EncryptedPayload and k :: bytes and s :: string
    assume "base64_decode C s = base64_decode C (p_nonce payload)"
    then show "decrypt C (payload\<lparr>p_nonce := s\<rparr>) k = decrypt C payload k"
      by (rule decrypt_reads_decoded)
  next
    fix payload :: EncryptedPayload and k :: bytes and s :: string
    assume "base64_decode C s = base64_decode C (p_ciphertext payload)"
    then show "decrypt C (payload\<lparr>p_ciphertext := s\<rparr>) k = decrypt C payload k"
      by (rule decrypt_reads_decoded)
  next
    fix payload :: EncryptedPayload and k :: bytes and s :: string
    assume "base64_decode C s = base64_decode C (p_tag payload)"
    then show "decrypt C (payload\<lparr>p_tag := s\<rparr>) k = decrypt C payload k"
      by (rule decrypt_reads_decoded)
  qed
qed

lemma toy_node_base64:
  "from_base64 (toString_base64 toy_nonce) = toy_nonce"
  "toString_base64 [CHR 0xE1] = ''4Q==''"
  "from_base64 ''4Q=='' = [CHR 0xE1]"
  "from_base64 ''4S=='' = [CHR 0xE1]"
  "toString_base64 ''0123456789abkey0'' = ''MDEyMzQ1Njc4OWFia2V5MA==''"
  "from_base64 ''MDEyMzQ1Njc4OWFia2V5MA=='' = ''0123456789abkey0''"
  "from_base64 ''MDEyMzQ1Njc4OWFia2V5MC=='' = ''0123456789abkey0''"
  by code_simp+

lemma toy_node_mac:
  "hkdf_sha256 toy_node_crypto = (\<lambda>k salt info n. info @ k)"
  "hmac_sha256_hex toy_node_crypto = (\<lambda>k dat. replicate (length k) (CHR ''1'') @ CHR ''0'' # k @ dat)"
  by (simp_all add: toy_node_crypto_def)

lemma toy_node_cipher:
  "aes_gcm_encrypt toy_node_crypto = (\<lambda>k n m. (m, take 16 (n @ k)))"
  "aes_gcm_decrypt toy_node_crypto = (\<lambda>k n c t. if t = take 16 (n @ k) then Some c else None)"
  "base64_encode toy_node_crypto = toString_base64"
  "base64_decode toy_node_crypto = from_base64"
  by (simp_all add: toy_node_crypto_def)

lemma toy_tag:
  "take 16 (toy_nonce @ toy_key) = ''0123456789abkey0''"
  "take 16 toy_nonce @ take (16 - length toy_nonce) toy_key = ''0123456789abkey0''"
  by (simp_all add: toy_nonce_def toy_key_def)

lemma length_prefix_inj:
  assumes "replicate m a @ b # xs = replicate n a @ b # ys" and "a \<noteq> b"
  shows "m = n \<and> xs = ys"
  using assms
proof (induction m arbitrary: n)
  case 0
  then show ?case by (cases n) auto
next
  case (Suc m)
  then show ?case by (cases n) auto
qed

lemma toy_node_collision_free: "collision_free toy_node_crypto"
  unfolding collision_free_def
proof (intro conjI allI impI)
  fix k k' :: bytes
  assume "deriveSigningKey toy_node_crypto k = deriveSigningKey toy_node_crypto k'"
  then show "k = k'" by (simp add: deriveSigningKey_def toy_node_mac)
next
  fix k k' dat dat' :: bytes
  assume "hmac_sha256_hex toy_node_crypto k dat = hmac_sha256_hex toy_node_crypto k' dat'"
  then have "replicate (length k) (CHR ''1'') @ CHR ''0'' # k @ dat
               = replicate (length k') (CHR ''1'') @ CHR ''0'' # k' @ dat'"
    by (simp add: toy_node_mac)
  from length_prefix_inj[OF this] have "length k = length k'" and "k @ dat = k' @ dat'"
    by simp_all
  then show "k = k'" and "dat = dat'" by simp_all
qed

lemma toy_sealed:
  "encrypt toy_node_crypto toy_nonce [CHR 0xE1] toy_key =
     \<lparr>p_v = 1, p_nonce = toString_base64 toy_nonce, p_ciphertext = ''4Q=='',
      p_tag = ''MDEyMzQ1Njc4OWFia2V5MA=='',
      p_hmac = hmac_sha256_hex toy_node_crypto (deriveSigningKey toy_node_crypto toy_key)
                 (toy_nonce @ [CHR 0xE1] @ ''0123456789abkey0'')\<rparr>"
  by (simp add: encrypt_def toy_node_cipher toy_tag toy_node_base64 base64_alphabet_def)

theorem sealed_payload_checks_witness:
  "from_base64 (toString_base64 toy_nonce) = toy_nonce \<and>
   from_base64 (toString_base64 [CHR 0xE1]) = [CHR 0xE1] \<and>
   from_base64 (toString_base64 ''0123456789abkey0'') = ''0123456789abkey0'' \<and>
   aes_gcm_encrypt toy_node_crypto toy_key toy_nonce [CHR 0xE1] = ([CHR 0xE1], ''0123456789abkey0'') \<and>
   aes_gcm_decrypt toy_node_crypto toy_key toy_nonce [CHR 0xE1] ''0123456789abkey0'' = Some [CHR 0xE1] \<and>
   collision_free toy_node_crypto \<and>
   decrypt toy_node_crypto (encrypt toy_node_crypto toy_nonce [CHR 0xE1] toy_key) toy_key
     = Inr [CHR 0xE1] \<and>
   decrypt toy_node_crypto
     ((encrypt toy_node_crypto toy_nonce [CHR 0xE1] toy_key)\<lparr>p_hmac := ''00''\<rparr>) toy_key
     = Inl HmacFailed \<and>
   decrypt toy_node_crypto
     ((encrypt toy_node_crypto toy_nonce [CHR 0xE1] toy_key)\<lparr>p_v := 2\<rparr>) toy_key
     = Inl (UnknownVersion 2) \<and>
   decrypt toy_node_crypto (encrypt toy_node_crypto toy_nonce [CHR 0xE1] toy_key)
     ''another key of thirty-two bytes!''
     = Inl HmacFailed \<and>
   decrypt toy_node_crypto
     ((encrypt toy_node_crypto toy_nonce [CHR 0xE1] toy_key)\<lparr>p_ciphertext := ''4A==''\<rparr>) toy_key
     = Inl HmacFailed"
proof -
  have e: "aes_gcm_encrypt toy_node_crypto toy_key toy_nonce [CHR 0xE1] = ([CHR 0xE1], ''0123456789abkey0'')"
    by (simp add: toy_node_cipher toy_tag)
  have d: "aes_gcm_decrypt toy_node_crypto toy_key toy_nonce [CHR 0xE1] ''0123456789abkey0'' = Some [CHR 0xE1]"
    by (simp add: toy_node_cipher toy_tag)
  have h1: "base64_decode toy_node_crypto (base64_encode toy_node_crypto toy_nonce) = toy_nonce"
    by (simp add: toy_node_cipher toy_node_base64)
  have h2: "base64_decode toy_node_crypto (base64_encode toy_node_crypto
              (fst (aes_gcm_encrypt toy_node_crypto toy_key toy_nonce [CHR 0xE1])))
            = fst (aes_gcm_encrypt toy_node_crypto toy_key toy_nonce [CHR 0xE1])"
    by (simp add: e) (simp add: toy_node_cipher toy_node_base64 base64_alphabet_def)
  have h3: "base64_decode toy_node_crypto (base64_encode toy_node_crypto
              (snd (aes_gcm_encrypt toy_node_crypto toy_key toy_nonce [CHR 0xE1])))
            = snd (aes_gcm_encrypt toy_node_crypto toy_key toy_nonce [CHR 0xE1])"
    by (simp add: e) (simp add: toy_node_cipher toy_node_base64 base64_alphabet_def)
  have h4: "aes_gcm_decrypt toy_node_crypto toy_key toy_nonce
              (fst (aes_gcm_encrypt toy_node_crypto toy_key toy_nonce [CHR 0xE1]))
              (snd (aes_gcm_encrypt toy_node_crypto toy_key toy_nonce [CHR 0xE1])) = Some [CHR 0xE1]"
    by (simp add: e d)
  note t = sealed_payload_checks[OF h1 h2 h3 h4]
  note cf = toy_node_collision_free
  let ?sealed = "encrypt toy_node_crypto toy_nonce [CHR 0xE1] toy_key"
  from t have 1: "decrypt toy_node_crypto ?sealed toy_key = Inr [CHR 0xE1]" by blast
  have "''00'' \<noteq> p_hmac ?sealed"
    by (simp add: toy_sealed) (simp add: toy_node_mac deriveSigningKey_def toy_key_def)
  with t have 2: "decrypt toy_node_crypto (?sealed\<lparr>p_hmac := ''00''\<rparr>) toy_key = Inl HmacFailed"
    by blast
  have "p_v (?sealed\<lparr>p_v := 2\<rparr>) \<noteq> 1" by simp
  with t have "decrypt toy_node_crypto (?sealed\<lparr>p_v := 2\<rparr>) toy_key
                 = Inl (UnknownVersion (p_v (?sealed\<lparr>p_v := 2\<rparr>)))"
    by blast
  then have 3: "decrypt toy_node_crypto (?sealed\<lparr>p_v := 2\<rparr>) toy_key = Inl (UnknownVersion 2)"
    by simp
  have "''another key of thirty-two bytes!'' \<noteq> toy_key" by (simp add: toy_key_def)
  with t cf have 4: "decrypt toy_node_crypto ?sealed ''another key of thirty-two bytes!''
                       = Inl HmacFailed"
    by blast
  have "from_base64 ''4A=='' = [CHR 0xE0]" by code_simp
  then have "base64_decode toy_node_crypto ''4A==''
               \<noteq> base64_decode toy_node_crypto (p_ciphertext ?sealed)"
    by (simp add: toy_sealed toy_node_cipher toy_node_base64)
  with t cf have 5: "decrypt toy_node_crypto (?sealed\<lparr>p_ciphertext := ''4A==''\<rparr>) toy_key
                       = Inl HmacFailed"
    by blast
  from e d cf 1 2 3 4 5 show ?thesis by (simp add: toy_node_base64 base64_alphabet_def)
qed

text \<open>
  One bit flipped in the ciphertext field, and one in the tag field, of a sealed payload,
  and \<open>decrypt\<close> returns the plaintext. The byte \<open>0xE1\<close> is sealed as \<open>4Q==\<close>; \<open>Q\<close> is
  \<open>0x51\<close> and \<open>S\<close> is \<open>0x53\<close>, and both \<open>4Q==\<close> and \<open>4S==\<close> decode to \<open>0xE1\<close>, the four
  low bits of the second character being dropped. The tag of 16 bytes ends in \<open>MA==\<close>;
  \<open>A\<close> is \<open>0x41\<close> and \<open>C\<close> is \<open>0x43\<close>. The cipher and the HMAC are toy ones; by
  \<open>decrypt_reads_decoded\<close> the outcome is that of the unchanged payload with any.
\<close>

theorem sealed_payload_checks_counterexample:
  "p_ciphertext (encrypt toy_node_crypto toy_nonce [CHR 0xE1] toy_key) = ''4Q=='' \<and>
   p_tag (encrypt toy_node_crypto toy_nonce [CHR 0xE1] toy_key) = ''MDEyMzQ1Njc4OWFia2V5MA=='' \<and>
   of_char (CHR ''Q'') = (0x51 :: nat) \<and> of_char (CHR ''S'') = (0x53 :: nat) \<and>
   of_char (CHR ''A'') = (0x41 :: nat) \<and> of_char (CHR ''C'') = (0x43 :: nat) \<and>
   decrypt toy_node_crypto
     ((encrypt toy_node_crypto toy_nonce [CHR 0xE1] toy_key)\<lparr>p_ciphertext := ''4S==''\<rparr>) toy_key
     = Inr [CHR 0xE1] \<and>
   decrypt toy_node_crypto
     ((encrypt toy_node_crypto toy_nonce [CHR 0xE1] toy_key)\<lparr>p_tag := ''MDEyMzQ1Njc4OWFia2V5MC==''\<rparr>)
     toy_key
     = Inr [CHR 0xE1]"
  by (simp add: toy_sealed)
     (simp add: decrypt_def expectedHmac_def toy_node_cipher toy_node_base64 toy_tag
        base64_alphabet_def)

section \<open>Properties of the mirror pull\<close>

text \<open>
  Claim C3. During a mirror pull, if the SHA-256 of the decrypted database bytes differs
  from the decrypted \<open>meta.hash\<close>, the pull aborts with an error and the device is as
  before: the mirror file, its \<open>.tmp\<close> and \<open>.bak\<close> neighbours, and the cached state
  (last hash, size and sync time) are unchanged, and no confirm is sent.
\<close>

theorem pullMirror_hash_mismatch:
  assumes "pull_download C P force d = Inr (meta, dbData, blobs)"
    and "hashBuffer C dbData \<noteq> meta_hash meta"
  shows "pullMirror C P force d
           = (Inl (IntegrityCheckFailed (meta_hash meta) (hashBuffer C dbData)), d)"
  using assms by (simp add: pullMirror_def)

lemma toy_download:
  "pull_download toy_crypto toy_pull_env False toy_device
     = Inr (\<lparr>meta_hash = ''H1'', meta_size = 11, meta_pushed_at = ''2026-02-15T00:00:00.000Z''\<rparr>, ''other bytes'',
            [\<lparr>b_id = ''X'', b_size = 10, b_dropped_at = ''2026-02-15T00:00:00.000Z''\<rparr>])"
  by (simp add: pull_download_def toy_pull_env_def toy_device_def toy_crypto_def response_ok_def
      decryptMeta_def decrypt_def expectedHmac_def encrypt_def deriveSigningKey_def loadState_def
      Let_def)

theorem pullMirror_hash_mismatch_witness:
  "pull_download toy_crypto toy_pull_env False toy_device
     = Inr (\<lparr>meta_hash = ''H1'', meta_size = 11, meta_pushed_at = ''2026-02-15T00:00:00.000Z''\<rparr>, ''other bytes'',
            [\<lparr>b_id = ''X'', b_size = 10, b_dropped_at = ''2026-02-15T00:00:00.000Z''\<rparr>]) \<and>
   hashBuffer toy_crypto ''other bytes'' \<noteq> ''H1'' \<and>
   pullMirror toy_crypto toy_pull_env False toy_device
     = (Inl (IntegrityCheckFailed ''H1'' ''other bytes''), toy_device) \<and>
   mirror_db toy_device = Some ''H0'' \<and> lastHash (loadState toy_device) = Some ''H0''"
proof -
  have h: "hashBuffer toy_crypto ''other bytes'' \<noteq> ''H1''"
    by (simp add: hashBuffer_def toy_crypto_def)
  from pullMirror_hash_mismatch[OF toy_download] h
  have "pullMirror toy_crypto toy_pull_env False toy_device
     = (Inl (IntegrityCheckFailed ''H1'' (hashBuffer toy_crypto ''other bytes'')), toy_device)"
    by simp
  moreover have "hashBuffer toy_crypto ''other bytes'' = ''other bytes''"
    by (simp add: hashBuffer_def toy_crypto_def)
  ultimately show ?thesis using toy_download h
    by (simp add: toy_device_def loadState_def)
qed

text \<open>
  More generally the device changes only when the pull reports an update, and then the
  mirror holds the verified bytes and the state file their hash and size.
\<close>

lemma pullMirror_changes_only_on_update:
  assumes "fst (pullMirror C P force d) \<noteq> Inr True"
  shows "snd (pullMirror C P force d) = d"
  using assms
  by (auto simp: pullMirror_def Let_def split: sum.splits prod.splits if_splits)

lemma pullMirror_installs_verified:
  assumes "pull_download C P force d = Inr (meta, dbData, blobs)"
    and "hashBuffer C dbData = meta_hash meta"
  shows "fst (pullMirror C P force d) = Inr True \<and>
         mirror_db (snd (pullMirror C P force d)) = Some dbData \<and>
         hashBuffer C (the (mirror_db (snd (pullMirror C P force d))))
           = the (lastHash (loadState (snd (pullMirror C P force d)))) \<and>
         lastSize (loadState (snd (pullMirror C P force d))) = Some (int (length dbData))"
  using assms by (simp add: pullMirror_def install_mirror_def loadState_def Let_def)

end
